theory Spec2Isabelle
  imports Main
begin

section \<open>The SQS data the mover handles\<close>

text \<open>
  The program is \<^verbatim>\<open>cmd/sqs/main.go\<close>. The SDK's structs hold pointers; a field of a
  struct that comes from the service (\<^verbatim>\<open>*string\<close>) is a \<open>string option\<close>, with
  \<open>None\<close> for \<^verbatim>\<open>nil\<close>. The translators copy these pointers and never
  dereference them. The elements of a slice the SDK has unmarshalled
  (\<^verbatim>\<open>[]*sqs.Message\<close> and the result entries) are never \<^verbatim>\<open>nil\<close>, so
  such a slice is a list of records.
\<close>

record message =
  Body :: "string option"
  MessageId :: "string option"
  ReceiptHandle :: "string option"

record SendMessageBatchRequestEntry =
  MessageBody :: "string option"
  Id :: "string option"

record DeleteMessageBatchRequestEntry =
  delete_ReceiptHandle :: "string option"
  delete_Id :: "string option"

section \<open>The batch translators\<close>

text \<open>
  \<^verbatim>\<open>convertToEntries\<close> allocates \<^verbatim>\<open>make([]*E, len(messages))\<close>, a slice of
  \<^verbatim>\<open>nil\<close> pointers, and assigns \<^verbatim>\<open>result[i] = &E{...}\<close> for every index and
  message of the range loop. The slice of pointers is a list of options and the loop is a
  \<open>fold\<close> over the indexed messages.
\<close>

definition convertToEntries ::
  "message list \<Rightarrow> SendMessageBatchRequestEntry option list" where
  "convertToEntries messages =
     fold (\<lambda>(i, message) result.
             result[i := Some \<lparr>MessageBody = Body message, Id = MessageId message\<rparr>])
          (enumerate 0 messages)
          (replicate (length messages) None)"

definition convertSuccessfulMessageToBatchRequestEntry ::
  "message list \<Rightarrow> DeleteMessageBatchRequestEntry option list" where
  "convertSuccessfulMessageToBatchRequestEntry messages =
     fold (\<lambda>(i, message) result.
             result[i := Some \<lparr>delete_ReceiptHandle = ReceiptHandle message,
                                delete_Id = MessageId message\<rparr>])
          (enumerate 0 messages)
          (replicate (length messages) None)"

section \<open>The queue service\<close>

text \<open>
  A Go \<^verbatim>\<open>error\<close> is either an \<^verbatim>\<open>awserr.Error\<close>, with its code and
  message, or any other error, with the text of \<^verbatim>\<open>Error()\<close>.
\<close>

datatype error = AwsError string string | PlainError string

record ReceiveMessageInput =
  QueueUrl :: string
  VisibilityTimeout :: int
  WaitTimeSeconds :: int
  MaxNumberOfMessages :: int

record ReceiveMessageOutput =
  Messages :: "message list"

record SendMessageBatchInput =
  send_QueueUrl :: string
  Entries :: "SendMessageBatchRequestEntry option list"

record SendMessageBatchResultEntry =
  result_Id :: "string option"

record BatchResultErrorEntry =
  failed_Id :: "string option"
  failed_Code :: "string option"
  failed_Message :: "string option"

record SendMessageBatchOutput =
  Successful :: "SendMessageBatchResultEntry list"
  Failed :: "BatchResultErrorEntry list"

record DeleteMessageBatchInput =
  delete_Entries :: "DeleteMessageBatchRequestEntry option list"
  delete_QueueUrl :: string

record DeleteMessageBatchResultEntry =
  deleted_Id :: "string option"

record DeleteMessageBatchOutput =
  delete_Successful :: "DeleteMessageBatchResultEntry list"
  delete_Failed :: "BatchResultErrorEntry list"

text \<open>
  The client \<^verbatim>\<open>*sqs.SQS\<close> is outside the repository. Each of its calls is a
  function of the request and of the state \<open>'w\<close> of everything beyond the program
  (the queues, the network), and returns the pair the Go call returns, the output and the
  error (\<open>None\<close> for \<^verbatim>\<open>nil\<close>), with the new state. The SDK returns a non-nil
  output struct also with an error, so the output is always there. Nothing is assumed
  about what a call answers.
\<close>

record 'w SQS =
  GetQueueUrl :: "string \<Rightarrow> 'w \<Rightarrow> (string \<times> error option) \<times> 'w"
  GetQueueAttributes :: "string \<Rightarrow> 'w \<Rightarrow> ((string \<rightharpoonup> string) \<times> error option) \<times> 'w"
  ReceiveMessage :: "ReceiveMessageInput \<Rightarrow> 'w \<Rightarrow> (ReceiveMessageOutput \<times> error option) \<times> 'w"
  SendMessageBatch ::
    "SendMessageBatchInput \<Rightarrow> 'w \<Rightarrow> (SendMessageBatchOutput \<times> error option) \<times> 'w"
  DeleteMessageBatch ::
    "DeleteMessageBatchInput \<Rightarrow> 'w \<Rightarrow> (DeleteMessageBatchOutput \<times> error option) \<times> 'w"

section \<open>What the program does to the outside\<close>

text \<open>
  Every request to the service and every output to the terminal is recorded, in order, as
  an event. A log line is its level, its format string and the format's arguments; the
  colours and the formatting itself are not modelled. \<open>Render v t\<close> is the progress bar
  drawn with value \<open>v\<close> and total \<open>t\<close>.
\<close>

datatype fmt_arg =
    Str string
  | Itoa int
  | Len nat
  | FailedEntries "BatchResultErrorEntry list"

datatype event =
    Println
  | LogInfo string "fmt_arg list"
  | LogError string "fmt_arg list"
  | HideCursor
  | ShowCursor
  | Render int int
  | GetQueueUrlCall string
  | GetQueueAttributesCall string
  | ReceiveCall ReceiveMessageInput
  | SendCall SendMessageBatchInput
  | DeleteCall DeleteMessageBatchInput

record 'w process =
  world :: 'w
  events :: "event list"

definition emit :: "event list \<Rightarrow> ('w, 'x) process_scheme \<Rightarrow> ('w, 'x) process_scheme" where
  "emit es st = st\<lparr>events := events st @ es\<rparr>"

definition logAwsError :: "string \<Rightarrow> error \<Rightarrow> event" where
  "logAwsError message err =
     (case err of
        AwsError code awsMessage \<Rightarrow> LogError ''%s. Error: %s'' [Str message, Str awsMessage]
      | PlainError text \<Rightarrow> LogError ''%s. Error: %s'' [Str message, Str text])"

section \<open>The transfer loop\<close>

text \<open>
  The loop's variables. \<^verbatim>\<open>messagesProcessed\<close> is a Go \<^verbatim>\<open>int\<close> (64 bits on the
  released platforms): its addition wraps, which \<open>int_add\<close> writes out. Of the progress
  bar only the total and the value matter here; both are \<^verbatim>\<open>float64\<close> in the
  library and hold every integer up to \<open>2 ^ 53\<close> exactly, so they are integers in the
  model, which is exact for counts up to \<open>2 ^ 53\<close>.
\<close>

definition int_add :: "int \<Rightarrow> int \<Rightarrow> int" where
  "int_add x y = (x + y + 2 ^ 63) mod 2 ^ 64 - 2 ^ 63"

record Bar =
  Total :: int
  bar_value :: int

definition NewInt :: "int \<Rightarrow> Bar" where
  "NewInt n = \<lparr>Total = n, bar_value = 0\<rparr>"

text \<open>
  The bar is the library \<^verbatim>\<open>github.com/tj/go-progress\<close>, outside the repository; two of
  its calls can panic, and \<open>None\<close> is the panic. \<^verbatim>\<open>ValueInt\<close> panics when the value
  is above the total (the exception that the comment of line 210 speaks of).
  \<^verbatim>\<open>String\<close> draws the bar of \<^verbatim>\<open>Width\<close> cells, 40 here (line 147): it divides the
  value by the total, takes \<^verbatim>\<open>filled = Ceil(Width * value / Total)\<close> and
  \<^verbatim>\<open>empty = Floor(Width - filled)\<close>, and repeats a cell \<^verbatim>\<open>filled\<close> and \<^verbatim>\<open>empty\<close>
  times with \<^verbatim>\<open>strings.Repeat\<close>, which panics on a negative count. With a total of 0
  the quotient is not a number or is infinite, its conversion to \<^verbatim>\<open>int\<close> is the least
  integer on the released platform (amd64), and the call panics. A bar that is drawn is
  its value and its total.
\<close>

definition ValueInt :: "int \<Rightarrow> Bar \<Rightarrow> Bar option" where
  "ValueInt n bar0 = (if n > Total bar0 then None else Some (bar0\<lparr>bar_value := n\<rparr>))"

definition Bar_String :: "Bar \<Rightarrow> (int \<times> int) option" where
  "Bar_String bar0 =
     (if Total bar0 = 0 then None
      else
        let filled = - ((- (40 * bar_value bar0)) div Total bar0);
            empty = 40 - filled
        in if filled < 0 \<or> empty < 0 then None
           else Some (bar_value bar0, Total bar0))"

record 'w loop_state = "'w process" +
  messagesProcessed :: int
  bar :: Bar

text \<open>
  One pass through the body of the \<^verbatim>\<open>for\<close> loop reaches the end of the body
  (\<open>Continue\<close>), executes a \<^verbatim>\<open>return\<close> (\<open>Return\<close>) or panics (\<open>Panic\<close>), each
  in the state reached.
\<close>

datatype 'a control = Continue 'a | Return 'a | Panic 'a

fun state_of :: "'a control \<Rightarrow> 'a" where
  "state_of (Continue st) = st"
| "state_of (Return st) = st"
| "state_of (Panic st) = st"

datatype ending = Looping | Returns | Panics

fun ending_of :: "'a control \<Rightarrow> ending" where
  "ending_of (Continue st) = Looping"
| "ending_of (Return st) = Returns"
| "ending_of (Panic st) = Panics"

text \<open>Lines 189 to 208: the delete of the forwarded batch and the count.\<close>

definition deleteForwarded ::
  "'w SQS \<Rightarrow> string \<Rightarrow> message list \<Rightarrow> 'w loop_state \<Rightarrow> 'w loop_state control" where
  "deleteForwarded svc sourceQueueURL messages st =
     (let deleteMessageBatch =
            \<lparr>delete_Entries = convertSuccessfulMessageToBatchRequestEntry messages,
             delete_QueueUrl = sourceQueueURL\<rparr>
      in case DeleteMessageBatch svc deleteMessageBatch (world st) of
           ((deleteResp, err), w) \<Rightarrow>
             let st1 = emit [DeleteCall deleteMessageBatch] (st\<lparr>world := w\<rparr>)
             in case err of
                  Some e \<Rightarrow>
                    Return (emit [logAwsError ''Failed to delete messages from source queue'' e] st1)
                | None \<Rightarrow>
                    if length (delete_Failed deleteResp) > 0 then
                      Return (emit [LogError
                        (''Error deleting messages, the following were not deleted'' @
                         [CHR 0x0A] @ '' %s'')
                        [FailedEntries (delete_Failed deleteResp)]] st1)
                    else
                      Continue (st1\<lparr>messagesProcessed :=
                        int_add (messagesProcessed st1) (int (length messages))\<rparr>))"

text \<open>
  Lines 210 to 216: the total follows the count, the value is set and the bar is drawn.
  A panic of the bar leaves the bar as it was assigned so far.
\<close>

definition updateProgress :: "int \<Rightarrow> 'w loop_state \<Rightarrow> 'w loop_state control" where
  "updateProgress numberOfMessages st =
     (let b1 = (if messagesProcessed st > numberOfMessages
                then (bar st)\<lparr>Total := messagesProcessed st\<rparr> else bar st)
      in case ValueInt (messagesProcessed st) b1 of
           None \<Rightarrow> Panic (st\<lparr>bar := b1\<rparr>)
         | Some b2 \<Rightarrow>
             (case Bar_String b2 of
                None \<Rightarrow> Panic (st\<lparr>bar := b2\<rparr>)
              | Some (v, t) \<Rightarrow> Continue (emit [Render v t] (st\<lparr>bar := b2\<rparr>))))"

definition loopBody ::
  "'w SQS \<Rightarrow> string \<Rightarrow> string \<Rightarrow> int \<Rightarrow> ReceiveMessageInput \<Rightarrow> 'w loop_state \<Rightarrow>
     'w loop_state control" where
  "loopBody svc sourceQueueURL destinationQueueURL numberOfMessages params st =
     (case ReceiveMessage svc params (world st) of
        ((resp, err), w1) \<Rightarrow>
          let st1 = emit [ReceiveCall params] (st\<lparr>world := w1\<rparr>)
          in if length (Messages resp) = 0 then
               Return (emit [Println,
                 LogInfo ''Done. Moved %s messages'' [Itoa numberOfMessages]] st1)
             else case err of
               Some e \<Rightarrow> Return (emit [logAwsError ''Failed to receive messages'' e] st1)
             | None \<Rightarrow>
                 let batch = \<lparr>send_QueueUrl = destinationQueueURL,
                              Entries = convertToEntries (Messages resp)\<rparr>
                 in case SendMessageBatch svc batch (world st1) of
                      ((sendResp, err), w2) \<Rightarrow>
                        let st2 = emit [SendCall batch] (st1\<lparr>world := w2\<rparr>)
                        in case err of
                             Some e \<Rightarrow>
                               Return (emit [logAwsError
                                 ''Failed to un-queue messages to the destination'' e] st2)
                           | None \<Rightarrow>
                               if length (Failed sendResp) > 0 then
                                 Return (emit [LogError
                                   ''%s messages failed to enqueue, exiting''
                                   [Len (length (Failed sendResp))]] st2)
                               else
                                 case (if length (Successful sendResp) = length (Messages resp)
                                       then deleteForwarded svc sourceQueueURL (Messages resp) st2
                                       else Continue st2) of
                                   Return st3 \<Rightarrow> Return st3
                                 | Panic st3 \<Rightarrow> Panic st3
                                 | Continue st3 \<Rightarrow> updateProgress numberOfMessages st3)"

text \<open>
  The \<^verbatim>\<open>for\<close> loop has no bound: it runs until a pass returns or panics.
  \<open>moveLoop n\<close> runs at most \<open>n\<close> passes; \<open>Return st\<close> is the loop having returned in
  state \<open>st\<close>, \<open>Panic st\<close> is a pass having panicked in state \<open>st\<close>, and \<open>Continue st\<close>
  is the loop still running after \<open>n\<close> passes, in state \<open>st\<close> at the head of the next one.
\<close>

fun moveLoop ::
  "nat \<Rightarrow> 'w SQS \<Rightarrow> string \<Rightarrow> string \<Rightarrow> int \<Rightarrow> ReceiveMessageInput \<Rightarrow> 'w loop_state \<Rightarrow>
     'w loop_state control" where
  "moveLoop 0 svc sourceQueueURL destinationQueueURL numberOfMessages params st = Continue st"
| "moveLoop (Suc n) svc sourceQueueURL destinationQueueURL numberOfMessages params st =
     (case loopBody svc sourceQueueURL destinationQueueURL numberOfMessages params st of
        Return st' \<Rightarrow> Return st'
      | Panic st' \<Rightarrow> Panic st'
      | Continue st' \<Rightarrow>
          moveLoop n svc sourceQueueURL destinationQueueURL numberOfMessages params st')"

definition receiveParams :: "string \<Rightarrow> ReceiveMessageInput" where
  "receiveParams sourceQueueURL =
     \<lparr>QueueUrl = sourceQueueURL, VisibilityTimeout = 2, WaitTimeSeconds = 0,
      MaxNumberOfMessages = 10\<rparr>"

definition loopEntry :: "int \<Rightarrow> 'w process \<Rightarrow> 'w loop_state" where
  "loopEntry numberOfMessages p =
     process.extend
       (emit [LogInfo ''Starting to move messages...'' [], Println, HideCursor] p)
       (loop_state.fields 0 (NewInt numberOfMessages))"

text \<open>
  \<^verbatim>\<open>moveMessages\<close>, with the number of passes it is given. The deferred
  \<^verbatim>\<open>term.ShowCursor()\<close> runs when the function returns, and when it panics.
\<close>

definition moveMessages ::
  "nat \<Rightarrow> 'w SQS \<Rightarrow> string \<Rightarrow> string \<Rightarrow> int \<Rightarrow> 'w process \<Rightarrow> 'w loop_state control" where
  "moveMessages n svc sourceQueueURL destinationQueueURL numberOfMessages p =
     (case moveLoop n svc sourceQueueURL destinationQueueURL numberOfMessages
             (receiveParams sourceQueueURL) (loopEntry numberOfMessages p) of
        Return st \<Rightarrow> Return (emit [ShowCursor] st)
      | Panic st \<Rightarrow> Panic (emit [ShowCursor] st)
      | Continue st \<Rightarrow> Continue st)"

section \<open>The caller\<close>

text \<open>
  The flags of the command line, and what \<^verbatim>\<open>main\<close> uses from outside the
  repository: the session of the SDK, \<^verbatim>\<open>strconv.Atoi\<close> and the client.
\<close>

record flags =
  sourceQueue :: string
  destinationQueue :: string
  profile :: string
  region :: string

record 'w platform =
  NewSessionWithOptions :: "string \<Rightarrow> string \<Rightarrow> error option"
  Atoi :: "string \<Rightarrow> int \<times> error option"
  sqs_New :: "'w SQS"

text \<open>
  \<^verbatim>\<open>main\<close> ends by returning (\<open>Exited\<close>), by a panic (\<open>Panicked\<close>: the attribute
  that is dereferenced is missing, or the transfer panics), or is still in the loop after
  the passes it was given (\<open>Running\<close>). The deferred \<^verbatim>\<open>fmt.Println()\<close> runs in the
  first two cases.
\<close>

datatype 'a exit = Running 'a | Exited 'a | Panicked 'a

fun exit_state :: "'a exit \<Rightarrow> 'a" where
  "exit_state (Running p) = p"
| "exit_state (Exited p) = p"
| "exit_state (Panicked p) = p"

definition resolveQueueURL ::
  "'w SQS \<Rightarrow> string \<Rightarrow> 'w process \<Rightarrow> (string \<times> error option) \<times> 'w process" where
  "resolveQueueURL svc queueName p =
     (case GetQueueUrl svc queueName (world p) of
        ((url, err), w) \<Rightarrow>
          let p1 = emit [GetQueueUrlCall queueName] (p\<lparr>world := w\<rparr>)
          in case err of
               Some e \<Rightarrow> (([], Some e), p1)
             | None \<Rightarrow> ((url, None), p1))"

text \<open>Lines 78 to 85 of \<^verbatim>\<open>main\<close>: the transfer is called unless the count is zero.\<close>

definition mainTransfer ::
  "nat \<Rightarrow> 'w SQS \<Rightarrow> string \<Rightarrow> string \<Rightarrow> int \<Rightarrow> 'w process \<Rightarrow> 'w process exit" where
  "mainTransfer n svc sourceQueueURL destinationQueueURL numberOfMessages p =
     (if numberOfMessages = 0 then
        Exited (emit [LogInfo ''Looks like nothing to move. Done.'' [], Println] p)
      else
        case moveMessages n svc sourceQueueURL destinationQueueURL numberOfMessages p of
          Return st \<Rightarrow> Exited (emit [Println] (process.truncate st))
        | Panic st \<Rightarrow> Panicked (emit [Println] (process.truncate st))
        | Continue st \<Rightarrow> Running (process.truncate st))"

definition main :: "nat \<Rightarrow> 'w platform \<Rightarrow> flags \<Rightarrow> 'w \<Rightarrow> 'w process exit" where
  "main n pf fl w =
     (let p0 = \<lparr>world = w, events = [Println]\<rparr>
      in case NewSessionWithOptions pf (profile fl) (region fl) of
        Some e \<Rightarrow>
          Exited (emit [LogError
            (''Unable to create AWS session for region '' @ [CHR 0x0D, CHR 0x0A])
            [Str (region fl)], Println] p0)
      | None \<Rightarrow>
          let svc = sqs_New pf
          in case resolveQueueURL svc (sourceQueue fl) p0 of
            ((sourceQueueURL, err), p1) \<Rightarrow>
              (case err of
                 Some e \<Rightarrow>
                   Exited (emit [logAwsError ''Failed to resolve source queue'' e, Println] p1)
               | None \<Rightarrow>
                   let p2 = emit [LogInfo ''Source queue URL: %s'' [Str sourceQueueURL]] p1
                   in case resolveQueueURL svc (destinationQueue fl) p2 of
                     ((destinationQueueURL, err), p3) \<Rightarrow>
                       (case err of
                          Some e \<Rightarrow>
                            Exited (emit [logAwsError ''Failed to resolve destination queue'' e,
                                          Println] p3)
                        | None \<Rightarrow>
                            let p4 = emit [LogInfo ''Destination queue URL: %s''
                                             [Str destinationQueueURL]] p3
                            in case GetQueueAttributes svc sourceQueueURL (world p4) of
                              ((attributes, err), w5) \<Rightarrow>
                                let p5 = emit [GetQueueAttributesCall sourceQueueURL]
                                           (p4\<lparr>world := w5\<rparr>)
                                in case attributes ''ApproximateNumberOfMessages'' of
                                  None \<Rightarrow> Panicked (emit [Println] p5)
                                | Some approximate \<Rightarrow>
                                    let numberOfMessages = fst (Atoi pf approximate);
                                        p6 = emit [LogInfo
                                          ''Approximate number of messages in the source queue: %s''
                                          [Str approximate]] p5
                                    in mainTransfer n svc sourceQueueURL
                                         destinationQueueURL numberOfMessages p6)))"

section \<open>Reading a run\<close>

text \<open>The requests among the events, and the events of one pass of the loop.\<close>

fun receiveRequests :: "event list \<Rightarrow> ReceiveMessageInput list" where
  "receiveRequests [] = []"
| "receiveRequests (ReceiveCall r # es) = r # receiveRequests es"
| "receiveRequests (e # es) = receiveRequests es"

fun sendRequests :: "event list \<Rightarrow> SendMessageBatchInput list" where
  "sendRequests [] = []"
| "sendRequests (SendCall r # es) = r # sendRequests es"
| "sendRequests (e # es) = sendRequests es"

fun deleteRequests :: "event list \<Rightarrow> DeleteMessageBatchInput list" where
  "deleteRequests [] = []"
| "deleteRequests (DeleteCall r # es) = r # deleteRequests es"
| "deleteRequests (e # es) = deleteRequests es"

fun isTransferRequest :: "event \<Rightarrow> bool" where
  "isTransferRequest (ReceiveCall r) = True"
| "isTransferRequest (SendCall r) = True"
| "isTransferRequest (DeleteCall r) = True"
| "isTransferRequest e = False"

definition transferRequests :: "event list \<Rightarrow> event list" where
  "transferRequests es = filter isTransferRequest es"

text \<open>
  The events that show the approximate total: the bar that is drawn, and the line that
  reports the count at the end.
\<close>

fun showsTotal :: "event \<Rightarrow> bool" where
  "showsTotal (Render v t) = True"
| "showsTotal (LogInfo f args) = (f = ''Done. Moved %s messages'')"
| "showsTotal e = False"

definition withoutTotal :: "event list \<Rightarrow> event list" where
  "withoutTotal es = filter (\<lambda>e. \<not> showsTotal e) es"

definition eventsSince ::
  "('w, 'x) process_scheme \<Rightarrow> ('w, 'y) process_scheme \<Rightarrow> event list" where
  "eventsSince st st' = drop (length (events st)) (events st')"

text \<open>
  What the service is documented to do: a receive returns at most the number of messages
  that was asked for.
\<close>

definition honoursMaxNumberOfMessages :: "'w SQS \<Rightarrow> bool" where
  "honoursMaxNumberOfMessages svc =
     (\<forall>r w. int (length (Messages (fst (fst (ReceiveMessage svc r w))))) \<le>
               max 0 (MaxNumberOfMessages r))"


text \<open>
  The counters are exact in a pass when the count, with the batch the pass receives, stays
  within \<open>2 ^ 53\<close>: the addition does not wrap and the bar's \<^verbatim>\<open>float64\<close> holds it.
\<close>

definition countsExact :: "'w SQS \<Rightarrow> ReceiveMessageInput \<Rightarrow> 'w loop_state \<Rightarrow> bool" where
  "countsExact svc params st =
     (messagesProcessed st +
        int (length (Messages (fst (fst (ReceiveMessage svc params (world st)))))) \<le> 2 ^ 53)"

section \<open>A scripted service\<close>

text \<open>
  A service for running the program on concrete inputs: it answers each kind of call from
  a list of prepared answers, in order, and with an empty answer once the list is used up.
  It returns no more messages than a receive asks for.
\<close>

record script =
  approximateNumber :: "string option"
  receives :: "(ReceiveMessageOutput \<times> error option) list"
  sends :: "(SendMessageBatchOutput \<times> error option) list"
  deletes :: "(DeleteMessageBatchOutput \<times> error option) list"

definition scripted :: "script SQS" where
  "scripted =
     \<lparr>GetQueueUrl = (\<lambda>queueName w. ((''https://sqs/'' @ queueName, None), w)),
      GetQueueAttributes = (\<lambda>url w.
        ((case approximateNumber w of
            None \<Rightarrow> Map.empty
          | Some a \<Rightarrow> [''ApproximateNumberOfMessages'' \<mapsto> a], None), w)),
      ReceiveMessage = (\<lambda>r w.
        case receives w of
          [] \<Rightarrow> ((\<lparr>Messages = []\<rparr>, None), w)
        | (out, err) # rest \<Rightarrow>
            ((\<lparr>Messages = take (nat (MaxNumberOfMessages r)) (Messages out)\<rparr>, err),
             w\<lparr>receives := rest\<rparr>)),
      SendMessageBatch = (\<lambda>r w.
        case sends w of
          [] \<Rightarrow> ((\<lparr>Successful = [], Failed = []\<rparr>, None), w)
        | a # rest \<Rightarrow> (a, w\<lparr>sends := rest\<rparr>)),
      DeleteMessageBatch = (\<lambda>r w.
        case deletes w of
          [] \<Rightarrow> ((\<lparr>delete_Successful = [], delete_Failed = []\<rparr>, None), w)
        | a # rest \<Rightarrow> (a, w\<lparr>deletes := rest\<rparr>))\<rparr>"

definition testPlatform :: "script platform" where
  "testPlatform =
     \<lparr>NewSessionWithOptions = (\<lambda>profileName regionName. None),
      Atoi = (\<lambda>s. if s = ''0'' then (0, None)
                   else if s = ''1'' then (1, None)
                   else if s = ''5'' then (5, None)
                   else (0, Some (PlainError ''strconv.Atoi: parsing: invalid syntax''))),
      sqs_New = scripted\<rparr>"

definition testFlags :: flags where
  "testFlags = \<lparr>sourceQueue = ''dlq'', destinationQueue = ''work'',
                profile = ''default'', region = ''us-east-1''\<rparr>"

definition msg :: "string \<Rightarrow> message" where
  "msg i = \<lparr>Body = Some (''body of '' @ i), MessageId = Some i,
            ReceiptHandle = Some (''handle of '' @ i)\<rparr>"

definition allForwarded :: "string list \<Rightarrow> SendMessageBatchOutput \<times> error option" where
  "allForwarded ids = (\<lparr>Successful = map (\<lambda>i. \<lparr>result_Id = Some i\<rparr>) ids, Failed = []\<rparr>, None)"

definition allDeleted :: "string list \<Rightarrow> DeleteMessageBatchOutput \<times> error option" where
  "allDeleted ids =
     (\<lparr>delete_Successful = map (\<lambda>i. \<lparr>deleted_Id = Some i\<rparr>) ids, delete_Failed = []\<rparr>, None)"

definition failedEntry :: "string \<Rightarrow> BatchResultErrorEntry" where
  "failedEntry i = \<lparr>failed_Id = Some i, failed_Code = Some ''InternalError'',
                    failed_Message = None\<rparr>"

definition start :: "script \<Rightarrow> script loop_state" where
  "start w = \<lparr>world = w, events = [], messagesProcessed = 0, bar = NewInt 5\<rparr>"

section \<open>The range loop fills the slice in order\<close>

lemma fold_index_assign:
  "k + length xs \<le> length result \<Longrightarrow>
   fold (\<lambda>(i, x) result. result[i := f x]) (enumerate k xs) result =
     take k result @ map f xs @ drop (k + length xs) result"
proof (induction xs arbitrary: k result)
  case Nil
  then show ?case by simp
next
  case (Cons x xs)
  have len: "Suc k + length xs \<le> length (result[k := f x])"
    using Cons.prems by simp
  have k: "k < length result"
    using Cons.prems by simp
  have "take (Suc k) (result[k := f x]) = take k result @ [f x]"
    using k by (simp add: take_Suc_conv_app_nth)
  moreover have "drop (Suc k + length xs) (result[k := f x]) = drop (Suc k + length xs) result"
    by simp
  ultimately show ?case
    using Cons.IH [OF len] by simp
qed

lemma fold_index_assign_all:
  "fold (\<lambda>(i, x) result. result[i := f x]) (enumerate 0 xs) (replicate (length xs) d) =
     map f xs"
  using fold_index_assign [of 0 xs "replicate (length xs) d" f] by simp

lemma convertToEntries_map:
  "convertToEntries messages =
     map (\<lambda>m. Some \<lparr>MessageBody = Body m, Id = MessageId m\<rparr>) messages"
  unfolding convertToEntries_def by (rule fold_index_assign_all)

lemma convertSuccessful_map:
  "convertSuccessfulMessageToBatchRequestEntry messages =
     map (\<lambda>m. Some \<lparr>delete_ReceiptHandle = ReceiptHandle m, delete_Id = MessageId m\<rparr>)
       messages"
  unfolding convertSuccessfulMessageToBatchRequestEntry_def by (rule fold_index_assign_all)

section \<open>Events and states of a pass\<close>

lemma events_emit [simp]: "events (emit es st) = events st @ es"
  by (simp add: emit_def)

lemma world_emit [simp]: "world (emit es st) = world st"
  by (simp add: emit_def)

lemma messagesProcessed_emit [simp]: "messagesProcessed (emit es st) = messagesProcessed st"
  by (simp add: emit_def)

lemma bar_emit [simp]: "bar (emit es st) = bar st"
  by (simp add: emit_def)

lemma deleteRequests_append [simp]:
  "deleteRequests (xs @ ys) = deleteRequests xs @ deleteRequests ys"
  by (induction xs rule: deleteRequests.induct) simp_all

lemma receiveRequests_append [simp]:
  "receiveRequests (xs @ ys) = receiveRequests xs @ receiveRequests ys"
  by (induction xs rule: receiveRequests.induct) simp_all

lemma sendRequests_append [simp]:
  "sendRequests (xs @ ys) = sendRequests xs @ sendRequests ys"
  by (induction xs rule: sendRequests.induct) simp_all

lemma logAwsError_not_request [simp]:
  "deleteRequests [logAwsError m e] = []"
  "receiveRequests [logAwsError m e] = []"
  "sendRequests [logAwsError m e] = []"
  by (simp_all add: logAwsError_def split: error.splits)

lemma transferRequests_append [simp]:
  "transferRequests (xs @ ys) = transferRequests xs @ transferRequests ys"
  by (simp add: transferRequests_def)

lemma transferRequests_logAwsError [simp]: "transferRequests [logAwsError m e] = []"
  by (simp add: transferRequests_def logAwsError_def split: error.splits)

lemma transferRequests_simps [simp]:
  "transferRequests [] = []"
  "transferRequests (ReceiveCall r # es) = ReceiveCall r # transferRequests es"
  "transferRequests (SendCall s # es) = SendCall s # transferRequests es"
  "transferRequests (DeleteCall d # es) = DeleteCall d # transferRequests es"
  "transferRequests (Println # es) = transferRequests es"
  "transferRequests (LogInfo f args # es) = transferRequests es"
  "transferRequests (LogError f args # es) = transferRequests es"
  "transferRequests (Render v t # es) = transferRequests es"
  "transferRequests (HideCursor # es) = transferRequests es"
  "transferRequests (ShowCursor # es) = transferRequests es"
  by (simp_all add: transferRequests_def)

lemma withoutTotal_append [simp]:
  "withoutTotal (xs @ ys) = withoutTotal xs @ withoutTotal ys"
  by (simp add: withoutTotal_def)

lemma withoutTotal_logAwsError [simp]: "withoutTotal [logAwsError m e] = [logAwsError m e]"
  by (simp add: withoutTotal_def logAwsError_def split: error.splits)

lemma withoutTotal_simps [simp]:
  "withoutTotal [] = []"
  "withoutTotal (ReceiveCall r # es) = ReceiveCall r # withoutTotal es"
  "withoutTotal (SendCall s # es) = SendCall s # withoutTotal es"
  "withoutTotal (DeleteCall d # es) = DeleteCall d # withoutTotal es"
  "withoutTotal (Println # es) = Println # withoutTotal es"
  "withoutTotal (LogError f args # es) = LogError f args # withoutTotal es"
  "withoutTotal (Render v t # es) = withoutTotal es"
  "withoutTotal (HideCursor # es) = HideCursor # withoutTotal es"
  "withoutTotal (ShowCursor # es) = ShowCursor # withoutTotal es"
  "withoutTotal (LogInfo ''Done. Moved %s messages'' args # es) = withoutTotal es"
  by (simp_all add: withoutTotal_def)

lemma Bar_String_drawn:
  assumes "0 < Total b" and "0 \<le> bar_value b" and "bar_value b \<le> Total b"
  shows "Bar_String b = Some (bar_value b, Total b)"
proof -
  have "(- (40 * bar_value b)) div Total b \<le> 0"
    using assms by (simp add: div_nonpos_pos_le0)
  moreover have "((- 40) * Total b) div Total b \<le> (- (40 * bar_value b)) div Total b"
    using assms by (intro zdiv_mono1) simp_all
  moreover have "((- 40) * Total b) div Total b = - 40"
    using assms by (subst nonzero_mult_div_cancel_right) simp_all
  ultimately show ?thesis
    using assms by (simp add: Bar_String_def Let_def)
qed

lemma updateProgress_state [simp]:
  "world (state_of (updateProgress N st)) = world st"
  "messagesProcessed (state_of (updateProgress N st)) = messagesProcessed st"
  "Total (bar (state_of (updateProgress N st))) =
     (if messagesProcessed st > N then messagesProcessed st else Total (bar st))"
  by (simp_all add: updateProgress_def ValueInt_def Let_def split: option.splits)

lemma updateProgress_events:
  "events (state_of (updateProgress N st)) =
     events st @
     (if ending_of (updateProgress N st) = Looping
      then [Render (messagesProcessed st)
              (if messagesProcessed st > N then messagesProcessed st else Total (bar st))]
      else [])"
  by (auto simp: updateProgress_def ValueInt_def Bar_String_def Let_def
      split: option.splits if_splits)

lemma updateProgress_not_Return [simp]: "updateProgress N st \<noteq> Return st'"
  by (simp add: updateProgress_def Let_def split: option.splits)

lemma updateProgress_drawn:
  assumes "0 < N" and "0 \<le> messagesProcessed st" and "N \<le> Total (bar st)"
  shows "updateProgress N st =
     Continue (emit [Render (messagesProcessed st)
                       (if messagesProcessed st > N then messagesProcessed st
                        else Total (bar st))]
       (st\<lparr>bar := (bar st)\<lparr>Total := (if messagesProcessed st > N then messagesProcessed st
                                          else Total (bar st)),
                              bar_value := messagesProcessed st\<rparr>\<rparr>))"
proof (cases "messagesProcessed st > N")
  case True
  let ?b2 = "(bar st)\<lparr>Total := messagesProcessed st, bar_value := messagesProcessed st\<rparr>"
  have "Bar_String ?b2 = Some (messagesProcessed st, messagesProcessed st)"
    using Bar_String_drawn [of ?b2] assms True by simp
  then show ?thesis
    using True by (simp add: updateProgress_def ValueInt_def Let_def)
next
  case False
  let ?b2 = "(bar st)\<lparr>bar_value := messagesProcessed st\<rparr>"
  have "Bar_String ?b2 = Some (messagesProcessed st, Total (bar st))"
    using Bar_String_drawn [of ?b2] assms False by simp
  then show ?thesis
    using False assms by (simp add: updateProgress_def ValueInt_def Let_def)
qed

lemma pass_receives_once:
  "\<exists>es. events (state_of (loopBody svc src dst N params st)) =
           events st @ ReceiveCall params # es \<and> receiveRequests es = []"
  by (auto simp: loopBody_def deleteForwarded_def Let_def updateProgress_events
      split: prod.splits option.splits control.splits)

lemma pass_receiveRequests:
  "receiveRequests (eventsSince st (state_of (loopBody svc src dst N params st))) = [params]"
  using pass_receives_once [of svc src dst N params st]
  by (auto simp: eventsSince_def)

lemmas script_defs = scripted_def start_def msg_def allForwarded_def allDeleted_def
  failedEntry_def receiveParams_def NewInt_def

lemmas run_defs = loopBody_def deleteForwarded_def updateProgress_def emit_def ValueInt_def Bar_String_def
  logAwsError_def moveMessages_def loopEntry_def process.extend_def loop_state.fields_def
  eventsSince_def int_add_def convertToEntries_map convertSuccessful_map Let_def

lemma pass_requests_bounded:
  "\<exists>es. events (state_of (loopBody svc src dst N params st)) = events st @ es \<and>
        (\<forall>r \<in> set (receiveRequests es). r = params) \<and>
        (honoursMaxNumberOfMessages svc \<longrightarrow>
           (\<forall>s \<in> set (sendRequests es).
              int (length (Entries s)) \<le> max 0 (MaxNumberOfMessages params)) \<and>
           (\<forall>d \<in> set (deleteRequests es).
              int (length (delete_Entries d)) \<le> max 0 (MaxNumberOfMessages params)))"
proof -
  obtain resp rerr w1 where recv: "ReceiveMessage svc params (world st) = ((resp, rerr), w1)"
    by (metis surj_pair)
  have len: "honoursMaxNumberOfMessages svc \<Longrightarrow>
      int (length (Messages resp)) \<le> max 0 (MaxNumberOfMessages params)"
    using recv unfolding honoursMaxNumberOfMessages_def
    by (metis fst_conv)
  show ?thesis
    using recv len
    by (auto simp: loopBody_def deleteForwarded_def Let_def updateProgress_events convertToEntries_map
        convertSuccessful_map split: prod.splits option.splits control.splits)
qed

lemma loop_requests_bounded:
  "\<exists>es. events (state_of (moveLoop n svc src dst N params st)) = events st @ es \<and>
        (\<forall>r \<in> set (receiveRequests es). r = params) \<and>
        (honoursMaxNumberOfMessages svc \<longrightarrow>
           (\<forall>s \<in> set (sendRequests es).
              int (length (Entries s)) \<le> max 0 (MaxNumberOfMessages params)) \<and>
           (\<forall>d \<in> set (deleteRequests es).
              int (length (delete_Entries d)) \<le> max 0 (MaxNumberOfMessages params)))"
proof (induction n arbitrary: st)
  case 0
  then show ?case by simp
next
  case (Suc n)
  obtain es where es: "events (state_of (loopBody svc src dst N params st)) = events st @ es"
    "\<forall>r \<in> set (receiveRequests es). r = params"
    "honoursMaxNumberOfMessages svc \<longrightarrow>
           (\<forall>s \<in> set (sendRequests es).
              int (length (Entries s)) \<le> max 0 (MaxNumberOfMessages params)) \<and>
           (\<forall>d \<in> set (deleteRequests es).
              int (length (delete_Entries d)) \<le> max 0 (MaxNumberOfMessages params))"
    using pass_requests_bounded [of svc src dst N params st] by blast
  show ?case
  proof (cases "loopBody svc src dst N params st")
    case (Return st')
    then show ?thesis using es by auto
  next
    case (Panic st')
    then show ?thesis using es by auto
  next
    case (Continue st')
    obtain es' where es': "events (state_of (moveLoop n svc src dst N params st')) =
        events st' @ es'"
      "\<forall>r \<in> set (receiveRequests es'). r = params"
      "honoursMaxNumberOfMessages svc \<longrightarrow>
           (\<forall>s \<in> set (sendRequests es').
              int (length (Entries s)) \<le> max 0 (MaxNumberOfMessages params)) \<and>
           (\<forall>d \<in> set (deleteRequests es').
              int (length (delete_Entries d)) \<le> max 0 (MaxNumberOfMessages params))"
      using Suc.IH [of st'] by blast
    have "events (state_of (moveLoop (Suc n) svc src dst N params st)) =
        events st @ (es @ es')"
      using Continue es(1) es'(1) by simp
    moreover have "\<forall>r \<in> set (receiveRequests (es @ es')). r = params"
      using es(2) es'(2) by auto
    moreover have "honoursMaxNumberOfMessages svc \<longrightarrow>
           (\<forall>s \<in> set (sendRequests (es @ es')).
              int (length (Entries s)) \<le> max 0 (MaxNumberOfMessages params)) \<and>
           (\<forall>d \<in> set (deleteRequests (es @ es')).
              int (length (delete_Entries d)) \<le> max 0 (MaxNumberOfMessages params))"
      using es(3) es'(3) by auto
    ultimately show ?thesis by blast
  qed
qed

lemma moveMessages_events:
  "\<exists>es. eventsSince p (state_of (moveMessages n svc src dst N p)) =
          [LogInfo ''Starting to move messages...'' [], Println, HideCursor] @ es @
          (if ending_of (moveMessages n svc src dst N p) = Looping then [] else [ShowCursor]) \<and>
        events (state_of (moveLoop n svc src dst N (receiveParams src) (loopEntry N p))) =
          events (loopEntry N p) @ es"
proof -
  obtain es where es: "events (state_of (moveLoop n svc src dst N (receiveParams src)
      (loopEntry N p))) = events (loopEntry N p) @ es"
    using loop_requests_bounded [of n svc src dst N "receiveParams src" "loopEntry N p"]
    by blast
  have entry: "events (loopEntry N p) =
      events p @ [LogInfo ''Starting to move messages...'' [], Println, HideCursor]"
    by (simp add: loopEntry_def process.extend_def emit_def)
  show ?thesis
    using es entry
    by (cases "moveLoop n svc src dst N (receiveParams src) (loopEntry N p)")
      (auto simp: moveMessages_def eventsSince_def)
qed

lemma scripted_honours: "honoursMaxNumberOfMessages scripted"
  unfolding honoursMaxNumberOfMessages_def
  by (auto simp: scripted_def split: list.splits prod.splits)

lemma int_add_exact:
  "- (2 ^ 63) \<le> x + y \<Longrightarrow> x + y < 2 ^ 63 \<Longrightarrow> int_add x y = x + y"
proof -
  assume lo: "- (2 ^ 63) \<le> x + y" and hi: "x + y < 2 ^ 63"
  have "0 \<le> x + y + 2 ^ 63" using lo by simp
  moreover have "x + y + 2 ^ 63 < (2 ^ 64 :: int)" using hi by simp
  ultimately have "(x + y + 2 ^ 63) mod 2 ^ 64 = x + y + 2 ^ 63"
    by (rule mod_pos_pos_trivial)
  then show ?thesis by (simp add: int_add_def)
qed

lemma pass_progress:
  assumes nonneg: "0 \<le> messagesProcessed st"
    and inv: "Total (bar st) \<le> max N (messagesProcessed st)"
    and exact: "countsExact svc params st"
  shows "0 \<le> messagesProcessed (state_of (loopBody svc src dst N params st)) \<and>
         Total (bar (state_of (loopBody svc src dst N params st))) \<le>
           max N (messagesProcessed (state_of (loopBody svc src dst N params st))) \<and>
         messagesProcessed st \<le> messagesProcessed (state_of (loopBody svc src dst N params st)) \<and>
         Total (bar st) \<le> Total (bar (state_of (loopBody svc src dst N params st))) \<and>
         (Total (bar (state_of (loopBody svc src dst N params st))) \<noteq> Total (bar st) \<longrightarrow>
            Total (bar st) < messagesProcessed (state_of (loopBody svc src dst N params st)) \<and>
            Total (bar (state_of (loopBody svc src dst N params st))) =
              messagesProcessed (state_of (loopBody svc src dst N params st)))"
proof -
  obtain resp rerr w1 where recv: "ReceiveMessage svc params (world st) = ((resp, rerr), w1)"
    by (metis surj_pair)
  have bound: "messagesProcessed st + int (length (Messages resp)) \<le> 2 ^ 53"
    using exact recv by (simp add: countsExact_def)
  have "messagesProcessed st + int (length (Messages resp)) < 2 ^ 63"
    using bound by simp
  moreover have "- (2 ^ 63) \<le> messagesProcessed st + int (length (Messages resp))"
    using nonneg by simp
  ultimately have add: "int_add (messagesProcessed st) (int (length (Messages resp))) =
      messagesProcessed st + int (length (Messages resp))"
    by (simp add: int_add_exact)
  show ?thesis
    using recv nonneg inv add
    by (auto simp: loopBody_def deleteForwarded_def Let_def
        split: prod.splits option.splits control.splits)
qed

lemma moveLoop_Suc_end:
  "moveLoop (Suc n) svc src dst N params st =
     (case moveLoop n svc src dst N params st of
        Continue s \<Rightarrow> loopBody svc src dst N params s
      | Return s \<Rightarrow> Return s
      | Panic s \<Rightarrow> Panic s)"
proof (induction n arbitrary: st)
  case 0
  then show ?case by (simp split: control.splits)
next
  case (Suc n)
  show ?case
  proof (cases "loopBody svc src dst N params st")
    case (Continue st')
    then show ?thesis
      using Suc.IH [of st'] by simp
  next
    case (Return st')
    then show ?thesis by simp
  next
    case (Panic st')
    then show ?thesis by simp
  qed
qed

lemma pass_return_keeps_progress:
  "loopBody svc src dst N params st = Return st' \<Longrightarrow>
     messagesProcessed st' = messagesProcessed st \<and> bar st' = bar st"
  by (auto simp: loopBody_def deleteForwarded_def Let_def
      split: prod.splits option.splits control.splits if_splits)

lemma progress_invariant:
  assumes nonneg: "0 \<le> messagesProcessed st"
    and inv: "Total (bar st) \<le> max N (messagesProcessed st)"
    and exact: "\<forall>k<n. \<forall>s. moveLoop k svc src dst N params st = Continue s \<longrightarrow>
                  countsExact svc params s"
  shows "0 \<le> messagesProcessed (state_of (moveLoop n svc src dst N params st)) \<and>
         Total (bar (state_of (moveLoop n svc src dst N params st))) \<le>
           max N (messagesProcessed (state_of (moveLoop n svc src dst N params st)))"
  using exact
proof (induction n)
  case 0
  then show ?case using nonneg inv by simp
next
  case (Suc n)
  have IH: "0 \<le> messagesProcessed (state_of (moveLoop n svc src dst N params st)) \<and>
         Total (bar (state_of (moveLoop n svc src dst N params st))) \<le>
           max N (messagesProcessed (state_of (moveLoop n svc src dst N params st)))"
    using Suc.IH Suc.prems less_Suc_eq by blast
  show ?case
  proof (cases "moveLoop n svc src dst N params st")
    case (Return s)
    then show ?thesis
      using IH by (simp add: moveLoop_Suc_end del: moveLoop.simps)
  next
    case (Panic s)
    then show ?thesis
      using IH by (simp add: moveLoop_Suc_end del: moveLoop.simps)
  next
    case (Continue s)
    have "countsExact svc params s"
      using Suc.prems Continue by blast
    then show ?thesis
      using IH Continue pass_progress [of s N svc params src dst]
      by (simp add: moveLoop_Suc_end del: moveLoop.simps)
  qed
qed

lemma truncate_simps [simp]:
  "events (process.truncate st) = events st"
  "world (process.truncate st) = world st"
  by (simp_all add: process.truncate_def)

lemmas main_defs = main_def mainTransfer_def resolveQueueURL_def testPlatform_def testFlags_def
  transferRequests_def process.truncate_def

lemma empty_batch_reports_done:
  assumes "ReceiveMessage svc params (world st) = ((resp, rerr), w1)"
    and "Messages resp = []"
  shows "loopBody svc src dst N params st =
     Return (emit [Println, LogInfo ''Done. Moved %s messages'' [Itoa N]]
               (emit [ReceiveCall params] (st\<lparr>world := w1\<rparr>)))"
  using assms by (simp add: loopBody_def Let_def)

lemma pass_keeps_total_floor:
  "N \<le> Total (bar st) \<Longrightarrow> N \<le> Total (bar (state_of (loopBody svc src dst N params st)))"
  by (auto simp: loopBody_def deleteForwarded_def Let_def
      split: prod.splits option.splits control.splits)

lemma loop_keeps_total_floor:
  "N \<le> Total (bar st) \<Longrightarrow> N \<le> Total (bar (state_of (moveLoop n svc src dst N params st)))"
proof (induction n)
  case 0
  then show ?case by simp
next
  case (Suc n)
  then show ?case
    using pass_keeps_total_floor [of N "state_of (moveLoop n svc src dst N params st)"
        svc src dst params]
    by (cases "moveLoop n svc src dst N params st")
      (simp_all add: moveLoop_Suc_end del: moveLoop.simps)
qed

lemma loopEntry_simps [simp]:
  "world (loopEntry N p) = world p"
  "messagesProcessed (loopEntry N p) = 0"
  "Total (bar (loopEntry N p)) = N"
  "events (loopEntry N p) =
     events p @ [LogInfo ''Starting to move messages...'' [], Println, HideCursor]"
  by (simp_all add: loopEntry_def process.extend_def loop_state.fields_def NewInt_def emit_def)

lemma loop_head_invariant:
  assumes "\<forall>k<n. \<forall>s. moveLoop k svc src dst N params (loopEntry N p) = Continue s \<longrightarrow>
             countsExact svc params s"
  shows "0 \<le> messagesProcessed (state_of (moveLoop n svc src dst N params (loopEntry N p))) \<and>
         N \<le> Total (bar (state_of (moveLoop n svc src dst N params (loopEntry N p))))"
  using progress_invariant [of "loopEntry N p" N n svc src dst params] assms
    loop_keeps_total_floor [of N "loopEntry N p" n svc src dst params]
  by simp

text \<open>
  A bar whose total is 0 or negative: \<^verbatim>\<open>moveMessages\<close> called with a total of 0, or of
  \<open>-1\<close>, on a batch whose forward response is short, panics when it draws the bar, after
  the receive and the forward. \<^verbatim>\<open>main\<close> never calls it with 0.
\<close>

lemma zero_total_panics:
  "moveLoop 1 scripted ''src'' ''dst'' 0 (receiveParams ''src'')
     (loopEntry 0
        \<lparr>world = \<lparr>approximateNumber = None,
                   receives = [(\<lparr>Messages = [msg ''a'', msg ''b'']\<rparr>, None)],
                   sends = [allForwarded [''a'']], deletes = []\<rparr>, events = []\<rparr>) =
   Panic
     \<lparr>world = \<lparr>approximateNumber = None, receives = [], sends = [], deletes = []\<rparr>,
      events =
        [LogInfo ''Starting to move messages...'' [], Println, HideCursor,
         ReceiveCall (receiveParams ''src''),
         SendCall \<lparr>send_QueueUrl = ''dst'',
                   Entries = convertToEntries [msg ''a'', msg ''b'']\<rparr>],
      messagesProcessed = 0, bar = \<lparr>Total = 0, bar_value = 0\<rparr>\<rparr>"
  by (simp add: run_defs script_defs)

lemma negative_total_panics:
  "moveLoop 1 scripted ''src'' ''dst'' (- 1) (receiveParams ''src'')
     (loopEntry (- 1)
        \<lparr>world = \<lparr>approximateNumber = None,
                   receives = [(\<lparr>Messages = [msg ''a'', msg ''b'']\<rparr>, None)],
                   sends = [allForwarded [''a'']], deletes = []\<rparr>, events = []\<rparr>) =
   Panic
     \<lparr>world = \<lparr>approximateNumber = None, receives = [], sends = [], deletes = []\<rparr>,
      events =
        [LogInfo ''Starting to move messages...'' [], Println, HideCursor,
         ReceiveCall (receiveParams ''src''),
         SendCall \<lparr>send_QueueUrl = ''dst'',
                   Entries = convertToEntries [msg ''a'', msg ''b'']\<rparr>],
      messagesProcessed = 0, bar = \<lparr>Total = 0, bar_value = 0\<rparr>\<rparr>"
  by (simp add: run_defs script_defs)

lemma transferRequests_withoutTotal [simp]:
  "transferRequests (withoutTotal es) = transferRequests es"
proof (induction es)
  case Nil
  then show ?case by simp
next
  case (Cons e es)
  then show ?case
    by (cases e) (simp_all add: transferRequests_def withoutTotal_def)
qed

lemma pass_independent_of_total:
  assumes same: "world st = world st'" "messagesProcessed st = messagesProcessed st'"
      "withoutTotal (events st) = withoutTotal (events st')"
    and positive: "0 < N" "0 < N'"
    and counted: "0 \<le> messagesProcessed st"
    and floors: "N \<le> Total (bar st)" "N' \<le> Total (bar st')"
    and exact: "countsExact svc params st"
  shows "ending_of (loopBody svc src dst N params st) =
           ending_of (loopBody svc src dst N' params st') \<and>
         ending_of (loopBody svc src dst N params st) \<noteq> Panics \<and>
         world (state_of (loopBody svc src dst N params st)) =
           world (state_of (loopBody svc src dst N' params st')) \<and>
         messagesProcessed (state_of (loopBody svc src dst N params st)) =
           messagesProcessed (state_of (loopBody svc src dst N' params st')) \<and>
         withoutTotal (events (state_of (loopBody svc src dst N params st))) =
           withoutTotal (events (state_of (loopBody svc src dst N' params st'))) \<and>
         0 \<le> messagesProcessed (state_of (loopBody svc src dst N params st))"
proof -
  obtain resp rerr w1 where recv: "ReceiveMessage svc params (world st) = ((resp, rerr), w1)"
    by (metis surj_pair)
  have bound: "messagesProcessed st + int (length (Messages resp)) \<le> 2 ^ 53"
    using exact recv by (simp add: countsExact_def)
  have "messagesProcessed st + int (length (Messages resp)) < 2 ^ 63"
    using bound by simp
  moreover have "- (2 ^ 63) \<le> messagesProcessed st + int (length (Messages resp))"
    using counted by simp
  ultimately have add: "int_add (messagesProcessed st') (int (length (Messages resp))) =
      messagesProcessed st' + int (length (Messages resp))"
    using same(2) by (simp add: int_add_exact)
  have counted': "0 \<le> messagesProcessed st'"
    using counted same(2) by simp
  show ?thesis
    using recv same positive counted' floors add
    by (auto simp: loopBody_def deleteForwarded_def Let_def updateProgress_drawn
        split: prod.splits option.splits control.splits)
qed

lemma loop_independent_of_total:
  assumes same: "world st = world st'" "messagesProcessed st = messagesProcessed st'"
      "withoutTotal (events st) = withoutTotal (events st')"
    and positive: "0 < N" "0 < N'"
    and counted: "0 \<le> messagesProcessed st"
    and floors: "N \<le> Total (bar st)" "N' \<le> Total (bar st')"
    and exact: "\<forall>k<n. \<forall>s. moveLoop k svc src dst N params st = Continue s \<longrightarrow>
                  countsExact svc params s"
  shows "ending_of (moveLoop n svc src dst N params st) =
           ending_of (moveLoop n svc src dst N' params st') \<and>
         ending_of (moveLoop n svc src dst N params st) \<noteq> Panics \<and>
         world (state_of (moveLoop n svc src dst N params st)) =
           world (state_of (moveLoop n svc src dst N' params st')) \<and>
         messagesProcessed (state_of (moveLoop n svc src dst N params st)) =
           messagesProcessed (state_of (moveLoop n svc src dst N' params st')) \<and>
         withoutTotal (events (state_of (moveLoop n svc src dst N params st))) =
           withoutTotal (events (state_of (moveLoop n svc src dst N' params st')))"
  using same counted floors exact
proof (induction n arbitrary: st st')
  case 0
  then show ?case by simp
next
  case (Suc n)
  have exact0: "countsExact svc params st"
    using Suc.prems(7) by (metis moveLoop.simps(1) zero_less_Suc)
  note pass = pass_independent_of_total [OF Suc.prems(1-3) positive Suc.prems(4-6) exact0,
      of src dst]
  show ?case
  proof (cases "loopBody svc src dst N params st")
    case (Return s)
    then obtain s' where s': "loopBody svc src dst N' params st' = Return s'"
      using pass by (cases "loopBody svc src dst N' params st'") auto
    show ?thesis
      using pass Return s' by simp
  next
    case (Panic s)
    then show ?thesis
      using pass by simp
  next
    case (Continue s)
    then obtain s' where s': "loopBody svc src dst N' params st' = Continue s'"
      using pass by (cases "loopBody svc src dst N' params st'") auto
    have rel: "world s = world s'" "messagesProcessed s = messagesProcessed s'"
      "withoutTotal (events s) = withoutTotal (events s')" "0 \<le> messagesProcessed s"
      using pass Continue s' by simp_all
    have fl: "N \<le> Total (bar s)" "N' \<le> Total (bar s')"
      using pass_keeps_total_floor [OF Suc.prems(5), of svc src dst params]
        pass_keeps_total_floor [OF Suc.prems(6), of svc src dst params] Continue s'
      by simp_all
    have ex: "\<forall>k<n. \<forall>t. moveLoop k svc src dst N params s = Continue t \<longrightarrow>
        countsExact svc params t"
    proof (intro allI impI)
      fix k t
      assume "k < n" and "moveLoop k svc src dst N params s = Continue t"
      then have "Suc k < Suc n" and "moveLoop (Suc k) svc src dst N params st = Continue t"
        using Continue by simp_all
      then show "countsExact svc params t"
        using Suc.prems(7) by blast
    qed
    show ?thesis
      using Suc.IH [OF rel fl ex] Continue s' by auto
  qed
qed

lemma moveMessages_independent_of_total:
  assumes positive: "0 < N" "0 < N'"
    and exact: "\<forall>k<n. \<forall>s.
      moveLoop k svc src dst N (receiveParams src) (loopEntry N p) = Continue s \<longrightarrow>
      countsExact svc (receiveParams src) s"
  shows "ending_of (moveMessages n svc src dst N p) =
           ending_of (moveMessages n svc src dst N' p) \<and>
         ending_of (moveMessages n svc src dst N p) \<noteq> Panics \<and>
         world (state_of (moveMessages n svc src dst N p)) =
           world (state_of (moveMessages n svc src dst N' p)) \<and>
         messagesProcessed (state_of (moveMessages n svc src dst N p)) =
           messagesProcessed (state_of (moveMessages n svc src dst N' p)) \<and>
         withoutTotal (events (state_of (moveMessages n svc src dst N p))) =
           withoutTotal (events (state_of (moveMessages n svc src dst N' p)))"
proof -
  have loop: "ending_of (moveLoop n svc src dst N (receiveParams src) (loopEntry N p)) =
           ending_of (moveLoop n svc src dst N' (receiveParams src) (loopEntry N' p)) \<and>
         ending_of (moveLoop n svc src dst N (receiveParams src) (loopEntry N p)) \<noteq> Panics \<and>
         world (state_of (moveLoop n svc src dst N (receiveParams src) (loopEntry N p))) =
           world (state_of (moveLoop n svc src dst N' (receiveParams src) (loopEntry N' p))) \<and>
         messagesProcessed (state_of (moveLoop n svc src dst N (receiveParams src) (loopEntry N p))) =
           messagesProcessed
             (state_of (moveLoop n svc src dst N' (receiveParams src) (loopEntry N' p))) \<and>
         withoutTotal (events (state_of (moveLoop n svc src dst N (receiveParams src)
             (loopEntry N p)))) =
           withoutTotal (events (state_of (moveLoop n svc src dst N' (receiveParams src)
             (loopEntry N' p))))"
    using positive exact
    by (intro loop_independent_of_total) simp_all
  show ?thesis
    using loop
    by (cases "moveLoop n svc src dst N (receiveParams src) (loopEntry N p)";
        cases "moveLoop n svc src dst N' (receiveParams src) (loopEntry N' p)")
      (simp_all add: moveMessages_def)
qed

section \<open>The translators\<close>

text \<open>
  C6. For every list of messages, the empty one included, both translators return a
  result (they have no failing branch), of the length of the input and in its order: the
  entry at each position holds the identifier of the message at that position as its
  correlation identifier, with that message's body (forward entries) or receipt handle
  (delete entries), as the same pointers.
\<close>

theorem translators_preserve_messages:
  "convertToEntries messages =
     map (\<lambda>m. Some \<lparr>MessageBody = Body m, Id = MessageId m\<rparr>) messages \<and>
   convertSuccessfulMessageToBatchRequestEntry messages =
     map (\<lambda>m. Some \<lparr>delete_ReceiptHandle = ReceiptHandle m, delete_Id = MessageId m\<rparr>)
       messages \<and>
   length (convertToEntries messages) = length messages \<and>
   length (convertSuccessfulMessageToBatchRequestEntry messages) = length messages \<and>
   convertToEntries [] = [] \<and>
   convertSuccessfulMessageToBatchRequestEntry [] = []"
  by (simp add: convertToEntries_map convertSuccessful_map)

section \<open>Forward before delete\<close>




section \<open>A forward response that is short\<close>

text \<open>
  C5. When the forward-batch call returns no error and reports no failed entry, but fewer
  successful entries than the batch has messages, the pass issues no delete-batch request
  and does not return: it reaches the end of the body with the moved count unchanged, and
  the loop goes on with the next pass, which issues the next receive. The pass is one of
  a transfer that \<^verbatim>\<open>main\<close> has started: the approximate total is positive, the count
  is not negative and the bar's total is not below the approximate total, as they are
  from the entry of the loop on (\<open>loop_head_invariant\<close>); there the bar is drawn without
  a panic.
\<close>

theorem short_forward_response_skips_delete:
  assumes recv: "ReceiveMessage svc params (world st) = ((resp, None), w1)"
    and nonempty: "Messages resp \<noteq> []"
    and send: "SendMessageBatch svc
                 \<lparr>send_QueueUrl = dst, Entries = convertToEntries (Messages resp)\<rparr> w1 =
               ((sendResp, None), w2)"
    and nofail: "Failed sendResp = []"
    and short: "length (Successful sendResp) < length (Messages resp)"
    and positive: "0 < N"
    and counted: "0 \<le> messagesProcessed st"
    and total: "N \<le> Total (bar st)"
  shows "\<exists>st'. loopBody svc src dst N params st = Continue st' \<and>
           messagesProcessed st' = messagesProcessed st \<and>
           deleteRequests (eventsSince st st') = [] \<and>
           world st' = w2 \<and>
           0 \<le> messagesProcessed st' \<and> N \<le> Total (bar st') \<and>
           moveLoop (Suc n) svc src dst N params st = moveLoop n svc src dst N params st' \<and>
           receiveRequests (eventsSince st' (state_of (loopBody svc src dst N params st'))) =
             [params]"
proof -
  let ?st2 = "emit [SendCall \<lparr>send_QueueUrl = dst, Entries = convertToEntries (Messages resp)\<rparr>]
      ((emit [ReceiveCall params] (st\<lparr>world := w1\<rparr>))\<lparr>world := w2\<rparr>)"
  have drawn: "updateProgress N ?st2 =
      Continue (emit [Render (messagesProcessed ?st2)
                        (if messagesProcessed ?st2 > N then messagesProcessed ?st2
                         else Total (bar ?st2))]
        (?st2\<lparr>bar := (bar ?st2)\<lparr>Total := (if messagesProcessed ?st2 > N
                                              then messagesProcessed ?st2
                                              else Total (bar ?st2)),
                                  bar_value := messagesProcessed ?st2\<rparr>\<rparr>))"
    using positive counted total by (intro updateProgress_drawn) simp_all
  obtain st' where st': "updateProgress N ?st2 = Continue st'"
    using drawn by blast
  have body: "loopBody svc src dst N params st = Continue st'"
    using recv nonempty send nofail short st' by (simp add: loopBody_def Let_def)
  have same: "messagesProcessed st' = messagesProcessed st" "world st' = w2"
    "N \<le> Total (bar st')"
    using drawn st' total by auto
  have "deleteRequests (eventsSince st st') = []"
    using drawn st' by (auto simp: eventsSince_def)
  then show ?thesis
    using body same counted pass_receiveRequests [of st' svc src dst N params] by simp
qed


theorem short_forward_response_skips_delete_witness:
  "\<exists>st'. loopBody scripted ''src'' ''dst'' 5 (receiveParams ''src'')
           (start \<lparr>approximateNumber = None,
                   receives = [(\<lparr>Messages = [msg ''a'', msg ''b'']\<rparr>, None)],
                   sends = [allForwarded [''a'']], deletes = []\<rparr>) = Continue st' \<and>
         messagesProcessed st' = 0 \<and>
         deleteRequests
           (eventsSince
              (start \<lparr>approximateNumber = None,
                      receives = [(\<lparr>Messages = [msg ''a'', msg ''b'']\<rparr>, None)],
                      sends = [allForwarded [''a'']], deletes = []\<rparr>) st') = [] \<and>
         world st' = \<lparr>approximateNumber = None, receives = [], sends = [], deletes = []\<rparr>"
proof -
  let ?w = "\<lparr>approximateNumber = None,
             receives = [(\<lparr>Messages = [msg ''a'', msg ''b'']\<rparr>, None)],
             sends = [allForwarded [''a'']], deletes = []\<rparr>"
  have recv: "ReceiveMessage scripted (receiveParams ''src'') (world (start ?w)) =
      ((\<lparr>Messages = [msg ''a'', msg ''b'']\<rparr>, None), ?w\<lparr>receives := []\<rparr>)"
    by (simp add: script_defs)
  have nonempty: "Messages \<lparr>Messages = [msg ''a'', msg ''b'']\<rparr> \<noteq> []"
    by simp
  have send: "SendMessageBatch scripted
      \<lparr>send_QueueUrl = ''dst'',
       Entries = convertToEntries (Messages \<lparr>Messages = [msg ''a'', msg ''b'']\<rparr>)\<rparr>
      (?w\<lparr>receives := []\<rparr>) =
      ((fst (allForwarded [''a'']), None), ?w\<lparr>receives := [], sends := []\<rparr>)"
    by (simp add: script_defs)
  have nofail: "Failed (fst (allForwarded [''a''])) = []"
    by (simp add: script_defs)
  have short: "length (Successful (fst (allForwarded [''a'']))) <
      length (Messages \<lparr>Messages = [msg ''a'', msg ''b'']\<rparr>)"
    by (simp add: script_defs)
  show ?thesis
    using short_forward_response_skips_delete [OF recv nonempty send nofail short,
        of 5 "''src''" 0]
    by (auto simp: script_defs)
qed

section \<open>A forward that fails\<close>

text \<open>
  C8. When the forward-batch call returns an error, the pass returns, and with it the
  loop: its requests are the receive and the forward only, so no delete-batch request is
  issued and the service is left as the failed forward call left it; the moved count is
  unchanged and the error is logged.
\<close>

theorem forward_failure_aborts_before_delete:
  assumes recv: "ReceiveMessage svc params (world st) = ((resp, None), w1)"
    and nonempty: "Messages resp \<noteq> []"
    and send: "SendMessageBatch svc
                 \<lparr>send_QueueUrl = dst, Entries = convertToEntries (Messages resp)\<rparr> w1 =
               ((sendResp, Some e), w2)"
  shows "\<exists>st'. loopBody svc src dst N params st = Return st' \<and>
           eventsSince st st' =
             [ReceiveCall params,
              SendCall \<lparr>send_QueueUrl = dst, Entries = convertToEntries (Messages resp)\<rparr>,
              logAwsError ''Failed to un-queue messages to the destination'' e] \<and>
           deleteRequests (eventsSince st st') = [] \<and>
           world st' = w2 \<and>
           messagesProcessed st' = messagesProcessed st \<and>
           moveLoop (Suc n) svc src dst N params st = Return st'"
  using assms by (simp add: loopBody_def Let_def eventsSince_def)

theorem forward_failure_aborts_before_delete_witness:
  "\<exists>st'. loopBody scripted ''src'' ''dst'' 5 (receiveParams ''src'')
           (start \<lparr>approximateNumber = None,
                   receives = [(\<lparr>Messages = [msg ''a'']\<rparr>, None)],
                   sends = [(\<lparr>Successful = [], Failed = []\<rparr>,
                             Some (AwsError ''RequestError'' ''send request failed''))],
                   deletes = []\<rparr>) = Return st' \<and>
         deleteRequests
           (eventsSince
              (start \<lparr>approximateNumber = None,
                      receives = [(\<lparr>Messages = [msg ''a'']\<rparr>, None)],
                      sends = [(\<lparr>Successful = [], Failed = []\<rparr>,
                                Some (AwsError ''RequestError'' ''send request failed''))],
                      deletes = []\<rparr>) st') = [] \<and>
         world st' = \<lparr>approximateNumber = None, receives = [], sends = [], deletes = []\<rparr> \<and>
         messagesProcessed st' = 0"
proof -
  let ?w = "\<lparr>approximateNumber = None,
             receives = [(\<lparr>Messages = [msg ''a'']\<rparr>, None)],
             sends = [(\<lparr>Successful = [], Failed = []\<rparr>,
                       Some (AwsError ''RequestError'' ''send request failed''))],
             deletes = []\<rparr>"
  have recv: "ReceiveMessage scripted (receiveParams ''src'') (world (start ?w)) =
      ((\<lparr>Messages = [msg ''a'']\<rparr>, None), ?w\<lparr>receives := []\<rparr>)"
    by (simp add: script_defs)
  have nonempty: "Messages \<lparr>Messages = [msg ''a'']\<rparr> \<noteq> []"
    by simp
  have send: "SendMessageBatch scripted
      \<lparr>send_QueueUrl = ''dst'',
       Entries = convertToEntries (Messages \<lparr>Messages = [msg ''a'']\<rparr>)\<rparr>
      (?w\<lparr>receives := []\<rparr>) =
      ((\<lparr>Successful = [], Failed = []\<rparr>,
        Some (AwsError ''RequestError'' ''send request failed'')),
       ?w\<lparr>receives := [], sends := []\<rparr>)"
    by (simp add: script_defs)
  show ?thesis
    using forward_failure_aborts_before_delete [OF recv nonempty send, of "''src''" 5 0]
    by (auto simp: script_defs)
qed

section \<open>A delete that fails\<close>

text \<open>
  C9. When a pass reaches the delete-batch call and the call returns an error, or its
  response reports a failed entry, the pass returns, and with it the loop: the moved count
  and the progress bar are unchanged, and no further receive is issued.
\<close>

theorem delete_failure_aborts:
  assumes recv: "ReceiveMessage svc params (world st) = ((resp, None), w1)"
    and nonempty: "Messages resp \<noteq> []"
    and send: "SendMessageBatch svc
                 \<lparr>send_QueueUrl = dst, Entries = convertToEntries (Messages resp)\<rparr> w1 =
               ((sendResp, None), w2)"
    and nofail: "Failed sendResp = []"
    and full: "length (Successful sendResp) = length (Messages resp)"
    and del: "DeleteMessageBatch svc
                \<lparr>delete_Entries = convertSuccessfulMessageToBatchRequestEntry (Messages resp),
                 delete_QueueUrl = src\<rparr> w2 =
              ((deleteResp, derr), w3)"
    and failed: "derr \<noteq> None \<or> delete_Failed deleteResp \<noteq> []"
  shows "\<exists>st'. loopBody svc src dst N params st = Return st' \<and>
           messagesProcessed st' = messagesProcessed st \<and>
           bar st' = bar st \<and>
           world st' = w3 \<and>
           receiveRequests (eventsSince st st') = [params] \<and>
           moveLoop (Suc n) svc src dst N params st = Return st'"
  using assms
  by (cases derr) (auto simp: loopBody_def deleteForwarded_def Let_def eventsSince_def)

theorem delete_failure_aborts_witness:
  "\<exists>st'. loopBody scripted ''src'' ''dst'' 5 (receiveParams ''src'')
           (start \<lparr>approximateNumber = None,
                   receives = [(\<lparr>Messages = [msg ''a'', msg ''b'']\<rparr>, None),
                               (\<lparr>Messages = [msg ''c'']\<rparr>, None)],
                   sends = [allForwarded [''a'', ''b'']],
                   deletes = [(\<lparr>delete_Successful = [\<lparr>deleted_Id = Some ''a''\<rparr>],
                                delete_Failed = [failedEntry ''b'']\<rparr>, None)]\<rparr>) = Return st' \<and>
         messagesProcessed st' = 0 \<and>
         world st' = \<lparr>approximateNumber = None,
                      receives = [(\<lparr>Messages = [msg ''c'']\<rparr>, None)],
                      sends = [], deletes = []\<rparr> \<and>
         moveLoop 3 scripted ''src'' ''dst'' 5 (receiveParams ''src'')
           (start \<lparr>approximateNumber = None,
                   receives = [(\<lparr>Messages = [msg ''a'', msg ''b'']\<rparr>, None),
                               (\<lparr>Messages = [msg ''c'']\<rparr>, None)],
                   sends = [allForwarded [''a'', ''b'']],
                   deletes = [(\<lparr>delete_Successful = [\<lparr>deleted_Id = Some ''a''\<rparr>],
                                delete_Failed = [failedEntry ''b'']\<rparr>, None)]\<rparr>) = Return st'"
proof -
  let ?w = "\<lparr>approximateNumber = None,
             receives = [(\<lparr>Messages = [msg ''a'', msg ''b'']\<rparr>, None),
                         (\<lparr>Messages = [msg ''c'']\<rparr>, None)],
             sends = [allForwarded [''a'', ''b'']],
             deletes = [(\<lparr>delete_Successful = [\<lparr>deleted_Id = Some ''a''\<rparr>],
                          delete_Failed = [failedEntry ''b'']\<rparr>, None)]\<rparr>"
  let ?rest = "[(\<lparr>Messages = [msg ''c'']\<rparr>, None)]"
  have recv: "ReceiveMessage scripted (receiveParams ''src'') (world (start ?w)) =
      ((\<lparr>Messages = [msg ''a'', msg ''b'']\<rparr>, None), ?w\<lparr>receives := ?rest\<rparr>)"
    by (simp add: script_defs)
  have nonempty: "Messages \<lparr>Messages = [msg ''a'', msg ''b'']\<rparr> \<noteq> []"
    by simp
  have send: "SendMessageBatch scripted
      \<lparr>send_QueueUrl = ''dst'',
       Entries = convertToEntries (Messages \<lparr>Messages = [msg ''a'', msg ''b'']\<rparr>)\<rparr>
      (?w\<lparr>receives := ?rest\<rparr>) =
      ((fst (allForwarded [''a'', ''b'']), None), ?w\<lparr>receives := ?rest, sends := []\<rparr>)"
    by (simp add: script_defs)
  have nofail: "Failed (fst (allForwarded [''a'', ''b''])) = []"
    by (simp add: script_defs)
  have full: "length (Successful (fst (allForwarded [''a'', ''b'']))) =
      length (Messages \<lparr>Messages = [msg ''a'', msg ''b'']\<rparr>)"
    by (simp add: script_defs)
  have del: "DeleteMessageBatch scripted
      \<lparr>delete_Entries = convertSuccessfulMessageToBatchRequestEntry
         (Messages \<lparr>Messages = [msg ''a'', msg ''b'']\<rparr>),
       delete_QueueUrl = ''src''\<rparr>
      (?w\<lparr>receives := ?rest, sends := []\<rparr>) =
      ((\<lparr>delete_Successful = [\<lparr>deleted_Id = Some ''a''\<rparr>],
         delete_Failed = [failedEntry ''b'']\<rparr>, None),
       ?w\<lparr>receives := ?rest, sends := [], deletes := []\<rparr>)"
    by (simp add: script_defs)
  have failed: "(None :: error option) \<noteq> None \<or>
      delete_Failed \<lparr>delete_Successful = [\<lparr>deleted_Id = Some ''a''\<rparr>],
                      delete_Failed = [failedEntry ''b'']\<rparr> \<noteq> []"
    by simp
  show ?thesis
    using delete_failure_aborts [OF recv nonempty send nofail full del failed, of 5 2]
    by (auto simp: script_defs eval_nat_numeral)
qed

section \<open>The receive requests\<close>

text \<open>
  C10. Every receive request that \<^verbatim>\<open>moveMessages\<close> issues, in a run of any number
  of passes, is the one request built before the loop: it asks for 10 messages at most and
  waits 0 seconds. With a service that returns no more messages than a receive asks for,
  no batch has more than 10 messages: neither what such a receive returns, nor the
  entries of any forward-batch or delete-batch request of the run.
\<close>

theorem receive_requests_bounded:
  "(\<forall>r \<in> set (receiveRequests (eventsSince p (state_of (moveMessages n svc src dst N p)))).
      r = receiveParams src \<and> MaxNumberOfMessages r = 10 \<and> WaitTimeSeconds r = 0) \<and>
   (honoursMaxNumberOfMessages svc \<longrightarrow>
      (\<forall>w. length (Messages (fst (fst (ReceiveMessage svc (receiveParams src) w)))) \<le> 10) \<and>
      (\<forall>s \<in> set (sendRequests (eventsSince p (state_of (moveMessages n svc src dst N p)))).
         length (Entries s) \<le> 10) \<and>
      (\<forall>d \<in> set (deleteRequests (eventsSince p (state_of (moveMessages n svc src dst N p)))).
         length (delete_Entries d) \<le> 10))"
proof -
  let ?run = "eventsSince p (state_of (moveMessages n svc src dst N p))"
  let ?tail = "if ending_of (moveMessages n svc src dst N p) = Looping then [] else [ShowCursor]"
  obtain es where run: "?run =
      [LogInfo ''Starting to move messages...'' [], Println, HideCursor] @ es @ ?tail"
    and es: "events (state_of (moveLoop n svc src dst N (receiveParams src) (loopEntry N p))) =
        events (loopEntry N p) @ es"
    using moveMessages_events [of p n svc src dst N] by blast
  obtain es' where es': "events (state_of (moveLoop n svc src dst N (receiveParams src)
        (loopEntry N p))) = events (loopEntry N p) @ es'"
    "\<forall>r \<in> set (receiveRequests es'). r = receiveParams src"
    "honoursMaxNumberOfMessages svc \<longrightarrow>
       (\<forall>s \<in> set (sendRequests es').
          int (length (Entries s)) \<le> max 0 (MaxNumberOfMessages (receiveParams src))) \<and>
       (\<forall>d \<in> set (deleteRequests es').
          int (length (delete_Entries d)) \<le> max 0 (MaxNumberOfMessages (receiveParams src)))"
    using loop_requests_bounded [of n svc src dst N "receiveParams src" "loopEntry N p"]
    by blast
  have same: "es' = es"
    using es es'(1) by simp
  have tail: "receiveRequests ?tail = []" "sendRequests ?tail = []" "deleteRequests ?tail = []"
    by simp_all
  have r: "receiveRequests ?run = receiveRequests es"
    and s: "sendRequests ?run = sendRequests es"
    and d: "deleteRequests ?run = deleteRequests es"
    using tail by (simp_all add: run)
  have first: "\<forall>r \<in> set (receiveRequests ?run).
      r = receiveParams src \<and> MaxNumberOfMessages r = 10 \<and> WaitTimeSeconds r = 0"
    using es'(2) same r by (auto simp: receiveParams_def)
  have batch: "honoursMaxNumberOfMessages svc \<longrightarrow>
      (\<forall>w. length (Messages (fst (fst (ReceiveMessage svc (receiveParams src) w)))) \<le> 10)"
  proof (intro impI allI)
    fix w
    assume "honoursMaxNumberOfMessages svc"
    then have "int (length (Messages (fst (fst (ReceiveMessage svc (receiveParams src) w))))) \<le>
        max 0 (MaxNumberOfMessages (receiveParams src))"
      unfolding honoursMaxNumberOfMessages_def by blast
    then show "length (Messages (fst (fst (ReceiveMessage svc (receiveParams src) w)))) \<le> 10"
      by (simp add: receiveParams_def)
  qed
  have rest: "honoursMaxNumberOfMessages svc \<longrightarrow>
      (\<forall>s \<in> set (sendRequests ?run). length (Entries s) \<le> 10) \<and>
      (\<forall>d \<in> set (deleteRequests ?run). length (delete_Entries d) \<le> 10)"
    using es'(3) same s d by (auto simp: receiveParams_def)
  show ?thesis
    using first batch rest by blast
qed

theorem receive_requests_bounded_witness:
  "honoursMaxNumberOfMessages scripted \<and>
   receiveRequests
     (eventsSince
        \<lparr>world = \<lparr>approximateNumber = None,
                   receives = [(\<lparr>Messages = [msg ''a'', msg ''b'']\<rparr>, None)],
                   sends = [allForwarded [''a'', ''b'']],
                   deletes = [allDeleted [''a'', ''b'']]\<rparr>, events = []\<rparr>
        (state_of (moveMessages 2 scripted ''src'' ''dst'' 5
           \<lparr>world = \<lparr>approximateNumber = None,
                      receives = [(\<lparr>Messages = [msg ''a'', msg ''b'']\<rparr>, None)],
                      sends = [allForwarded [''a'', ''b'']],
                      deletes = [allDeleted [''a'', ''b'']]\<rparr>, events = []\<rparr>))) =
     [\<lparr>QueueUrl = ''src'', VisibilityTimeout = 2, WaitTimeSeconds = 0,
       MaxNumberOfMessages = 10\<rparr>,
      \<lparr>QueueUrl = ''src'', VisibilityTimeout = 2, WaitTimeSeconds = 0,
       MaxNumberOfMessages = 10\<rparr>] \<and>
   map (\<lambda>s. length (Entries s))
     (sendRequests
       (eventsSince
        \<lparr>world = \<lparr>approximateNumber = None,
                   receives = [(\<lparr>Messages = [msg ''a'', msg ''b'']\<rparr>, None)],
                   sends = [allForwarded [''a'', ''b'']],
                   deletes = [allDeleted [''a'', ''b'']]\<rparr>, events = []\<rparr>
        (state_of (moveMessages 2 scripted ''src'' ''dst'' 5
           \<lparr>world = \<lparr>approximateNumber = None,
                      receives = [(\<lparr>Messages = [msg ''a'', msg ''b'']\<rparr>, None)],
                      sends = [allForwarded [''a'', ''b'']],
                      deletes = [allDeleted [''a'', ''b'']]\<rparr>, events = []\<rparr>)))) = [2]"
  using scripted_honours
    receive_requests_bounded [of
      "\<lparr>world = \<lparr>approximateNumber = None,
                   receives = [(\<lparr>Messages = [msg ''a'', msg ''b'']\<rparr>, None)],
                   sends = [allForwarded [''a'', ''b'']],
                   deletes = [allDeleted [''a'', ''b'']]\<rparr>, events = []\<rparr>"
      2 scripted "''src''" "''dst''" 5]
  by (simp add: run_defs script_defs eval_nat_numeral)

section \<open>Progress\<close>

text \<open>
  C7. From one pass of the loop to the next, and into the state in which the loop
  returns, the moved count does not decrease and the total of the progress bar does not
  decrease; the total changes only when the moved count is strictly above it, and then it
  becomes the moved count. This holds as long as the counts are exact (the count, with the
  batch of each pass so far, stays within \<open>2 ^ 53\<close>).
\<close>

theorem progress_is_monotonic:
  assumes exact: "\<forall>k\<le>n. \<forall>s.
      moveLoop k svc src dst N (receiveParams src) (loopEntry N p) = Continue s \<longrightarrow>
      countsExact svc (receiveParams src) s"
  shows "messagesProcessed (state_of (moveLoop n svc src dst N (receiveParams src) (loopEntry N p)))
           \<le> messagesProcessed
               (state_of (moveLoop (Suc n) svc src dst N (receiveParams src) (loopEntry N p))) \<and>
         Total (bar (state_of (moveLoop n svc src dst N (receiveParams src) (loopEntry N p))))
           \<le> Total (bar
               (state_of (moveLoop (Suc n) svc src dst N (receiveParams src) (loopEntry N p)))) \<and>
         (Total (bar (state_of (moveLoop (Suc n) svc src dst N (receiveParams src) (loopEntry N p))))
            \<noteq> Total (bar (state_of (moveLoop n svc src dst N (receiveParams src) (loopEntry N p))))
          \<longrightarrow>
            Total (bar (state_of (moveLoop n svc src dst N (receiveParams src) (loopEntry N p))))
              < messagesProcessed
                  (state_of (moveLoop (Suc n) svc src dst N (receiveParams src) (loopEntry N p))) \<and>
            Total (bar (state_of (moveLoop (Suc n) svc src dst N (receiveParams src) (loopEntry N p))))
              = messagesProcessed
                  (state_of (moveLoop (Suc n) svc src dst N (receiveParams src) (loopEntry N p))))"
proof -
  let ?params = "receiveParams src"
  let ?st0 = "loopEntry N p"
  have entry: "messagesProcessed ?st0 = 0" "Total (bar ?st0) = N"
    by (simp_all add: loopEntry_def process.extend_def loop_state.fields_def NewInt_def emit_def)
  have before: "\<forall>k<n. \<forall>s. moveLoop k svc src dst N ?params ?st0 = Continue s \<longrightarrow>
      countsExact svc ?params s"
    using exact less_imp_le by blast
  have inv: "0 \<le> messagesProcessed (state_of (moveLoop n svc src dst N ?params ?st0)) \<and>
      Total (bar (state_of (moveLoop n svc src dst N ?params ?st0))) \<le>
        max N (messagesProcessed (state_of (moveLoop n svc src dst N ?params ?st0)))"
    using progress_invariant [of ?st0 N n svc src dst ?params] entry before by simp
  show ?thesis
  proof (cases "moveLoop n svc src dst N ?params ?st0")
    case (Return s)
    then show ?thesis
      by (simp add: moveLoop_Suc_end del: moveLoop.simps)
  next
    case (Panic s)
    then show ?thesis
      by (simp add: moveLoop_Suc_end del: moveLoop.simps)
  next
    case (Continue s)
    have "countsExact svc ?params s"
      using exact Continue by blast
    then show ?thesis
      using inv Continue pass_progress [of s N svc ?params src dst]
      by (simp add: moveLoop_Suc_end del: moveLoop.simps)
  qed
qed

theorem progress_is_monotonic_witness:
  "countsExact scripted (receiveParams ''src'')
     (loopEntry 1
        \<lparr>world = \<lparr>approximateNumber = None,
                   receives = [(\<lparr>Messages = [msg ''a'', msg ''b'']\<rparr>, None)],
                   sends = [allForwarded [''a'', ''b'']],
                   deletes = [allDeleted [''a'', ''b'']]\<rparr>, events = []\<rparr>) \<and>
   messagesProcessed (state_of (moveLoop 0 scripted ''src'' ''dst'' 1 (receiveParams ''src'')
     (loopEntry 1
        \<lparr>world = \<lparr>approximateNumber = None,
                   receives = [(\<lparr>Messages = [msg ''a'', msg ''b'']\<rparr>, None)],
                   sends = [allForwarded [''a'', ''b'']],
                   deletes = [allDeleted [''a'', ''b'']]\<rparr>, events = []\<rparr>))) = 0 \<and>
   messagesProcessed (state_of (moveLoop (Suc 0) scripted ''src'' ''dst'' 1 (receiveParams ''src'')
     (loopEntry 1
        \<lparr>world = \<lparr>approximateNumber = None,
                   receives = [(\<lparr>Messages = [msg ''a'', msg ''b'']\<rparr>, None)],
                   sends = [allForwarded [''a'', ''b'']],
                   deletes = [allDeleted [''a'', ''b'']]\<rparr>, events = []\<rparr>))) = 2 \<and>
   Total (bar (state_of (moveLoop 0 scripted ''src'' ''dst'' 1 (receiveParams ''src'')
     (loopEntry 1
        \<lparr>world = \<lparr>approximateNumber = None,
                   receives = [(\<lparr>Messages = [msg ''a'', msg ''b'']\<rparr>, None)],
                   sends = [allForwarded [''a'', ''b'']],
                   deletes = [allDeleted [''a'', ''b'']]\<rparr>, events = []\<rparr>)))) = 1 \<and>
   Total (bar (state_of (moveLoop (Suc 0) scripted ''src'' ''dst'' 1 (receiveParams ''src'')
     (loopEntry 1
        \<lparr>world = \<lparr>approximateNumber = None,
                   receives = [(\<lparr>Messages = [msg ''a'', msg ''b'']\<rparr>, None)],
                   sends = [allForwarded [''a'', ''b'']],
                   deletes = [allDeleted [''a'', ''b'']]\<rparr>, events = []\<rparr>)))) = 2"
proof -
  let ?p = "\<lparr>world = \<lparr>approximateNumber = None,
                   receives = [(\<lparr>Messages = [msg ''a'', msg ''b'']\<rparr>, None)],
                   sends = [allForwarded [''a'', ''b'']],
                   deletes = [allDeleted [''a'', ''b'']]\<rparr>, events = []\<rparr>"
  have exact0: "countsExact scripted (receiveParams ''src'') (loopEntry 1 ?p)"
    by (simp add: countsExact_def run_defs script_defs)
  have exact: "\<forall>k\<le>0. \<forall>s.
      moveLoop k scripted ''src'' ''dst'' 1 (receiveParams ''src'') (loopEntry 1 ?p) = Continue s \<longrightarrow>
      countsExact scripted (receiveParams ''src'') s"
    using exact0 by simp
  show ?thesis
    using exact0 progress_is_monotonic [OF exact]
    by (simp add: run_defs script_defs)
qed

section \<open>The approximate total\<close>

text \<open>
  C4, as the code has it. The caller (lines 78 to 83 of \<^verbatim>\<open>main\<close>) starts the transfer
  only when the approximate total is not zero: with a total of zero it issues no request
  of the transfer and leaves the service as it is, and with a positive total its requests
  are those of \<^verbatim>\<open>moveMessages\<close>. Whatever positive total \<^verbatim>\<open>moveMessages\<close> is given,
  after any number of passes the loop is still running or has returned, and has not
  panicked, the same as with any other positive total, and it has issued the same
  requests, left the service in the same state, has the same moved count and has produced
  the same events but for those that show the total: the answers of the service alone
  decide them. This holds as long as the counts are exact.
\<close>

theorem total_scales_display_and_gates_start:
  assumes positive: "0 < N" "0 < N'"
    and exact: "\<forall>k<n. \<forall>s.
      moveLoop k svc src dst N (receiveParams src) (loopEntry N p) = Continue s \<longrightarrow>
      countsExact svc (receiveParams src) s"
  shows "ending_of (moveMessages n svc src dst N p) =
           ending_of (moveMessages n svc src dst N' p) \<and>
         ending_of (moveMessages n svc src dst N p) \<noteq> Panics \<and>
         world (state_of (moveMessages n svc src dst N p)) =
           world (state_of (moveMessages n svc src dst N' p)) \<and>
         messagesProcessed (state_of (moveMessages n svc src dst N p)) =
           messagesProcessed (state_of (moveMessages n svc src dst N' p)) \<and>
         withoutTotal (events (state_of (moveMessages n svc src dst N p))) =
           withoutTotal (events (state_of (moveMessages n svc src dst N' p))) \<and>
         transferRequests (events (state_of (moveMessages n svc src dst N p))) =
           transferRequests (events (state_of (moveMessages n svc src dst N' p))) \<and>
         transferRequests (eventsSince p (exit_state (mainTransfer n svc src dst 0 p))) = [] \<and>
         world (exit_state (mainTransfer n svc src dst 0 p)) = world p \<and>
         transferRequests (events (exit_state (mainTransfer n svc src dst N p))) =
           transferRequests (events (state_of (moveMessages n svc src dst N p))) \<and>
         world (exit_state (mainTransfer n svc src dst N p)) =
           world (state_of (moveMessages n svc src dst N p))"
proof -
  note same = moveMessages_independent_of_total [OF positive exact]
  have "transferRequests (withoutTotal (events (state_of (moveMessages n svc src dst N p)))) =
      transferRequests (withoutTotal (events (state_of (moveMessages n svc src dst N' p))))"
    using same by simp
  then have requests: "transferRequests (events (state_of (moveMessages n svc src dst N p))) =
      transferRequests (events (state_of (moveMessages n svc src dst N' p)))"
    by simp
  have skip: "transferRequests (eventsSince p (exit_state (mainTransfer n svc src dst 0 p))) = []"
    "world (exit_state (mainTransfer n svc src dst 0 p)) = world p"
    by (simp_all add: mainTransfer_def eventsSince_def)
  have run: "transferRequests (events (exit_state (mainTransfer n svc src dst N p))) =
        transferRequests (events (state_of (moveMessages n svc src dst N p)))"
      "world (exit_state (mainTransfer n svc src dst N p)) =
        world (state_of (moveMessages n svc src dst N p))"
    using positive(1)
    by (cases "moveMessages n svc src dst N p"; simp add: mainTransfer_def)+
  show ?thesis
    using same requests skip run by blast
qed

theorem total_scales_display_and_gates_start_witness:
  "countsExact scripted (receiveParams ''src'')
     (loopEntry 5
        \<lparr>world = \<lparr>approximateNumber = None, receives = [(\<lparr>Messages = [msg ''a'']\<rparr>, None)],
                   sends = [allForwarded [''a'']], deletes = [allDeleted [''a'']]\<rparr>,
         events = []\<rparr>) \<and>
   ending_of (moveMessages 2 scripted ''src'' ''dst'' 5
     \<lparr>world = \<lparr>approximateNumber = None, receives = [(\<lparr>Messages = [msg ''a'']\<rparr>, None)],
                sends = [allForwarded [''a'']], deletes = [allDeleted [''a'']]\<rparr>,
      events = []\<rparr>) = Returns \<and>
   ending_of (moveMessages 2 scripted ''src'' ''dst'' 1
     \<lparr>world = \<lparr>approximateNumber = None, receives = [(\<lparr>Messages = [msg ''a'']\<rparr>, None)],
                sends = [allForwarded [''a'']], deletes = [allDeleted [''a'']]\<rparr>,
      events = []\<rparr>) = Returns \<and>
   messagesProcessed (state_of (moveMessages 2 scripted ''src'' ''dst'' 1
     \<lparr>world = \<lparr>approximateNumber = None, receives = [(\<lparr>Messages = [msg ''a'']\<rparr>, None)],
                sends = [allForwarded [''a'']], deletes = [allDeleted [''a'']]\<rparr>,
      events = []\<rparr>)) = 1 \<and>
   withoutTotal (events (state_of (moveMessages 2 scripted ''src'' ''dst'' 1
     \<lparr>world = \<lparr>approximateNumber = None, receives = [(\<lparr>Messages = [msg ''a'']\<rparr>, None)],
                sends = [allForwarded [''a'']], deletes = [allDeleted [''a'']]\<rparr>,
      events = []\<rparr>))) =
     [LogInfo ''Starting to move messages...'' [], Println, HideCursor,
      ReceiveCall (receiveParams ''src''),
      SendCall \<lparr>send_QueueUrl = ''dst'', Entries = convertToEntries [msg ''a'']\<rparr>,
      DeleteCall \<lparr>delete_Entries = convertSuccessfulMessageToBatchRequestEntry [msg ''a''],
                  delete_QueueUrl = ''src''\<rparr>,
      ReceiveCall (receiveParams ''src''), Println, ShowCursor] \<and>
   transferRequests (events (exit_state (mainTransfer 2 scripted ''src'' ''dst'' 5
     \<lparr>world = \<lparr>approximateNumber = None, receives = [(\<lparr>Messages = [msg ''a'']\<rparr>, None)],
                sends = [allForwarded [''a'']], deletes = [allDeleted [''a'']]\<rparr>,
      events = []\<rparr>))) =
     [ReceiveCall (receiveParams ''src''),
      SendCall \<lparr>send_QueueUrl = ''dst'', Entries = convertToEntries [msg ''a'']\<rparr>,
      DeleteCall \<lparr>delete_Entries = convertSuccessfulMessageToBatchRequestEntry [msg ''a''],
                  delete_QueueUrl = ''src''\<rparr>,
      ReceiveCall (receiveParams ''src'')] \<and>
   transferRequests (events (exit_state (mainTransfer 2 scripted ''src'' ''dst'' 0
     \<lparr>world = \<lparr>approximateNumber = None, receives = [(\<lparr>Messages = [msg ''a'']\<rparr>, None)],
                sends = [allForwarded [''a'']], deletes = [allDeleted [''a'']]\<rparr>,
      events = []\<rparr>))) = []"
proof -
  let ?p = "\<lparr>world = \<lparr>approximateNumber = None,
                      receives = [(\<lparr>Messages = [msg ''a'']\<rparr>, None)],
                      sends = [allForwarded [''a'']], deletes = [allDeleted [''a'']]\<rparr>,
            events = []\<rparr>"
  have five: "(0 :: int) < 5" and one: "(0 :: int) < 1"
    by simp_all
  have exact0: "countsExact scripted (receiveParams ''src'') (loopEntry 5 ?p)"
    by (simp add: countsExact_def run_defs script_defs)
  have exact: "\<forall>k<2. \<forall>s.
      moveLoop k scripted ''src'' ''dst'' 5 (receiveParams ''src'') (loopEntry 5 ?p) = Continue s \<longrightarrow>
      countsExact scripted (receiveParams ''src'') s"
    by (auto simp: less_Suc_eq eval_nat_numeral countsExact_def run_defs script_defs)
  show ?thesis
    using exact0 total_scales_display_and_gates_start [OF five one exact]
    by (simp add: run_defs script_defs main_defs withoutTotal_def countsExact_def
        eval_nat_numeral)
qed

text \<open>
  The claim as stated, that the total never decides whether the transfer runs, zero
  included, fails in \<^verbatim>\<open>main\<close>: of two runs on the same queue, holding one message,
  that differ only in the approximate number the service reports, the one with \<open>0\<close>
  issues no receive, and the one with \<open>5\<close> moves the message.
\<close>

theorem zero_total_skips_transfer_counterexample:
  "transferRequests (events (exit_state (main 2 testPlatform testFlags
     \<lparr>approximateNumber = Some ''0'', receives = [(\<lparr>Messages = [msg ''a'']\<rparr>, None)],
      sends = [allForwarded [''a'']], deletes = [allDeleted [''a'']]\<rparr>))) = [] \<and>
   transferRequests (events (exit_state (main 2 testPlatform testFlags
     \<lparr>approximateNumber = Some ''5'', receives = [(\<lparr>Messages = [msg ''a'']\<rparr>, None)],
      sends = [allForwarded [''a'']], deletes = [allDeleted [''a'']]\<rparr>))) =
     [ReceiveCall (receiveParams ''https://sqs/dlq''),
      SendCall \<lparr>send_QueueUrl = ''https://sqs/work'', Entries = convertToEntries [msg ''a'']\<rparr>,
      DeleteCall \<lparr>delete_Entries = convertSuccessfulMessageToBatchRequestEntry [msg ''a''],
                  delete_QueueUrl = ''https://sqs/dlq''\<rparr>,
      ReceiveCall (receiveParams ''https://sqs/dlq'')]"
  by (simp add: run_defs script_defs main_defs eval_nat_numeral)

section \<open>A receive that fails\<close>

text \<open>
  C2. The claim is that a receive that returns an error ends the loop with that error.
  The code tests the length of the batch (line 161) before it tests the error (line 167):
  when the failed receive comes with no messages, as a failed request does, the run logs
  no error and ends as a finished transfer. Here the first receive fails.
\<close>

theorem receive_error_reported_as_done:
  "moveMessages 1 scripted ''src'' ''dst'' 5
     \<lparr>world = \<lparr>approximateNumber = None,
                receives = [(\<lparr>Messages = []\<rparr>,
                             Some (AwsError ''RequestError'' ''send request failed''))],
                sends = [], deletes = []\<rparr>,
      events = []\<rparr> =
   Return
     \<lparr>world = \<lparr>approximateNumber = None, receives = [], sends = [], deletes = []\<rparr>,
      events =
        [LogInfo ''Starting to move messages...'' [], Println, HideCursor,
         ReceiveCall (receiveParams ''src''),
         Println, LogInfo ''Done. Moved %s messages'' [Itoa 5], ShowCursor],
      messagesProcessed = 0, bar = \<lparr>Total = 5, bar_value = 0\<rparr>\<rparr>"
  by (simp add: run_defs script_defs eval_nat_numeral)

section \<open>The count that is reported\<close>

text \<open>
  C3. The claim is that the loop, ending on an empty batch, reports the moved count it
  has accumulated. The code formats \<^verbatim>\<open>numberOfMessages\<close>, the approximate total
  (line 163). Here the total is 5 and one message is moved: the run ends with
  \<^verbatim>\<open>messagesProcessed\<close> at 1 and reports 5.
\<close>

theorem done_reports_approximate_total:
  "moveMessages 2 scripted ''src'' ''dst'' 5
     \<lparr>world = \<lparr>approximateNumber = None, receives = [(\<lparr>Messages = [msg ''a'']\<rparr>, None)],
                sends = [allForwarded [''a'']], deletes = [allDeleted [''a'']]\<rparr>,
      events = []\<rparr> =
   Return
     \<lparr>world = \<lparr>approximateNumber = None, receives = [], sends = [], deletes = []\<rparr>,
      events =
        [LogInfo ''Starting to move messages...'' [], Println, HideCursor,
         ReceiveCall (receiveParams ''src''),
         SendCall \<lparr>send_QueueUrl = ''dst'', Entries = convertToEntries [msg ''a'']\<rparr>,
         DeleteCall \<lparr>delete_Entries = convertSuccessfulMessageToBatchRequestEntry [msg ''a''],
                     delete_QueueUrl = ''src''\<rparr>,
         Render 1 5,
         ReceiveCall (receiveParams ''src''),
         Println, LogInfo ''Done. Moved %s messages'' [Itoa 5], ShowCursor],
      messagesProcessed = 1, bar = \<lparr>Total = 5, bar_value = 1\<rparr>\<rparr>"
  by (simp add: run_defs script_defs eval_nat_numeral)


end
